theory Spec2Isabelle
  imports Main "HOL-Library.Sublist" "HOL-Library.AList"
begin

section \<open>Go values\<close>

text \<open>
  A Go \<^verbatim>\<open>error\<close> is its message; \<open>None\<close> is the nil error. A run of the
  program can also end in \<^verbatim>\<open>log.Fatal\<close> (the message is logged and the process
  exits) or in a runtime panic; both are results of the model.
\<close>

type_synonym error = string

datatype abort = Fatal string | Panic string

text \<open>
  A Go map is nil until it is made. Reading a nil map finds nothing and ranging over it
  visits nothing; assigning to an entry of a nil map panics. \<open>None\<close> is the nil map. The
  entries are an association list: its order is the order in which \<^verbatim>\<open>range\<close> visits
  them, which Go leaves unspecified, so a statement about every list is a statement about
  every order.
\<close>

type_synonym ('k, 'v) gomap = "('k \<times> 'v) list option"

definition entries :: "('k, 'v) gomap \<Rightarrow> ('k \<times> 'v) list" where
  "entries m = (case m of None \<Rightarrow> [] | Some kvs \<Rightarrow> kvs)"

definition index :: "('k, 'v) gomap \<Rightarrow> 'k \<Rightarrow> 'v option" where
  "index m k = map_of (entries m) k"

definition keys :: "('k, 'v) gomap \<Rightarrow> 'k list" where
  "keys m = map fst (entries m)"

definition assign :: "('k, 'v) gomap \<Rightarrow> 'k \<Rightarrow> 'v \<Rightarrow> abort + ('k, 'v) gomap" where
  "assign m k v =
     (case m of
        None \<Rightarrow> Inl (Panic ''assignment to entry in nil map'')
      | Some kvs \<Rightarrow> Inr (Some (AList.update k v kvs)))"

text \<open>\<^verbatim>\<open>strings.Split(s, sep)\<close> for a separator of one byte.\<close>

fun Split :: "string \<Rightarrow> char \<Rightarrow> string list" where
  "Split [] sep = [[]]"
| "Split (x # xs) sep =
     (if x = sep then [] # Split xs sep
      else (case Split xs sep of [] \<Rightarrow> [[x]] | y # ys \<Rightarrow> (x # y) # ys))"

section \<open>The cipher and HSM registry (config.go)\<close>

text \<open>
  The interfaces \<^verbatim>\<open>cipherInterface\<close> and \<^verbatim>\<open>HSMInterface\<close> are declared outside
  the two source files. A provider instance is a value of the type parameter \<open>'c\<close> (a
  cipher) or \<open>'h\<close> (an HSM); the methods the code calls on it are the fields of the
  records below, so every function of the model takes the implementations as a parameter.
  Of \<^verbatim>\<open>cipherInfo\<close> only the two fields read here are kept.
\<close>

record cipherInfo =
  Name :: string
  Extension :: string

record request =
  RemoteAddr :: string
  Method :: string
  RequestURI :: string

datatype json = JNull | JString string | JStrings "string list"

text \<open>
  \<^verbatim>\<open>jsonObject\<close> is a map from field names to values; \<open>None\<close> is the nil
  \<^verbatim>\<open>jsonObject\<close>.
\<close>

type_synonym jsonObject = "(string \<times> json) list option"

text \<open>
  What the network has received of one response: the header map, the status code once it
  is written, and the body bytes.
\<close>

record response =
  header :: "(string \<times> string) list"
  code :: "nat option"
  body :: string

record 'c cipherInterface =
  GetInfo :: "'c \<Rightarrow> cipherInfo"
  New :: "'c \<Rightarrow> 'c"
  HandleRequest :: "'c \<Rightarrow> response \<Rightarrow> request \<Rightarrow> response \<times> jsonObject"

record ('h, 'c) HSMInterface =
  HSM_New :: "'h \<Rightarrow> 'h"
  Cipher :: "'h \<Rightarrow> 'c"

text \<open>The fields of \<^verbatim>\<open>config\<close> that the registry and the dispatcher use.\<close>

record ('c, 'h) config =
  Debug :: bool
  HSM :: string
  Ciphers :: "string list"
  availableCiphers :: "(string, 'c) gomap"
  enabledCiphers :: "(string, 'c) gomap"
  availableHSMs :: "(string, 'h) gomap"
  authHSM :: "'h option"
  tlsHSM :: "'h option"

definition SetAvailableCipher ::
  "'c cipherInterface \<Rightarrow> ('c, 'h) config \<Rightarrow> 'c \<Rightarrow> ('c, 'h) config" where
  "SetAvailableCipher I c cipher =
     (let c = (if availableCiphers c = None then c\<lparr>availableCiphers := Some []\<rparr> else c)
      in c\<lparr>availableCiphers :=
             Some (AList.update (Name (GetInfo I cipher)) cipher (entries (availableCiphers c)))\<rparr>)"

definition SetAvailableHSM ::
  "('c, 'h) config \<Rightarrow> string \<Rightarrow> 'h \<Rightarrow> ('c, 'h) config" where
  "SetAvailableHSM c model hsm =
     (let c = (if availableHSMs c = None then c\<lparr>availableHSMs := Some []\<rparr> else c)
      in c\<lparr>availableHSMs := Some (AList.update model hsm (entries (availableHSMs c)))\<rparr>)"

definition GetAvailableCipher ::
  "'c cipherInterface \<Rightarrow> ('c, 'h) config \<Rightarrow> string \<Rightarrow> error + 'c" where
  "GetAvailableCipher I c cipherName =
     (case index (availableCiphers c) cipherName of
        None \<Rightarrow> Inl ''invalid cipher''
      | Some cipher \<Rightarrow> Inr (New I cipher))"

definition GetCipher ::
  "'c cipherInterface \<Rightarrow> ('c, 'h) config \<Rightarrow> string \<Rightarrow> error + 'c" where
  "GetCipher I c cipherName =
     (case index (enabledCiphers c) cipherName of
        None \<Rightarrow> Inl ''invalid cipher''
      | Some cipher \<Rightarrow> Inr (New I cipher))"

text \<open>The loop of \<^verbatim>\<open>GetCipherByExt\<close> over the values of the enabled map.\<close>

fun GetCipherByExt_range :: "'c cipherInterface \<Rightarrow> 'c list \<Rightarrow> string \<Rightarrow> error + 'c" where
  "GetCipherByExt_range I [] ext = Inl ''invalid cipher''"
| "GetCipherByExt_range I (val # vals) ext =
     (if Extension (GetInfo I val) = ext then Inr val
      else GetCipherByExt_range I vals ext)"

definition GetCipherByExt ::
  "'c cipherInterface \<Rightarrow> ('c, 'h) config \<Rightarrow> string \<Rightarrow> error + 'c" where
  "GetCipherByExt I c ext =
     GetCipherByExt_range I (map snd (entries (enabledCiphers c))) ext"

text \<open>
  The lines \<^verbatim>\<open>PrintAvailableCiphers\<close> hands to the logger: the heading, then a tab
  and the name for every key of the available map.
\<close>

definition PrintAvailableCiphers :: "('c, 'h) config \<Rightarrow> string list" where
  "PrintAvailableCiphers c =
     ''supported ciphers:'' # map (\<lambda>k. CHR 0x09 # k) (keys (availableCiphers c))"

text \<open>
  \<^verbatim>\<open>EnableCiphers\<close> returns its error, the configuration as it leaves it (the names
  before the first miss stay enabled) and the lines it logged.
\<close>

fun EnableCiphers_loop ::
  "string list \<Rightarrow> ('c, 'h) config \<Rightarrow> error option \<times> ('c, 'h) config \<times> string list" where
  "EnableCiphers_loop [] c = (None, c, [])"
| "EnableCiphers_loop (n # ns) c =
     (case index (availableCiphers c) n of
        Some val \<Rightarrow>
          EnableCiphers_loop ns
            (c\<lparr>enabledCiphers := Some (AList.update n val (entries (enabledCiphers c)))\<rparr>)
      | None \<Rightarrow> (Some (''unsupported cipher name '' @ n), c, PrintAvailableCiphers c))"

definition EnableCiphers ::
  "('c, 'h) config \<Rightarrow> error option \<times> ('c, 'h) config \<times> string list" where
  "EnableCiphers c0 =
     (let c = (if enabledCiphers c0 = None then c0\<lparr>enabledCiphers := Some []\<rparr> else c0)
      in if length (Ciphers c) = 0
         then (Some ''missing cipher specification'', c, PrintAvailableCiphers c)
         else EnableCiphers_loop (Ciphers c) c)"

text \<open>
  The option loop of \<^verbatim>\<open>EnableHSM\<close>. The \<^verbatim>\<open>cipher\<close> option stores into the
  enabled map without making it first. The notice sent to \<^verbatim>\<open>status.Log\<close> changes
  nothing in the configuration and is left out.
\<close>

fun EnableHSM_options ::
  "('h, 'c) HSMInterface \<Rightarrow> 'c cipherInterface \<Rightarrow> 'h \<Rightarrow> string list \<Rightarrow>
   ('c, 'h) config \<Rightarrow> abort + ('c, 'h) config" where
  "EnableHSM_options H I hsm [] c = Inr c"
| "EnableHSM_options H I hsm (opt # opts) c =
     (if opt = ''luks'' then EnableHSM_options H I hsm opts (c\<lparr>authHSM := Some hsm\<rparr>)
      else if opt = ''tls'' then EnableHSM_options H I hsm opts (c\<lparr>tlsHSM := Some hsm\<rparr>)
      else if opt = ''cipher'' then
        (let cipher = Cipher H hsm;
             c1 = SetAvailableCipher I c cipher
         in case assign (enabledCiphers c1) (Name (GetInfo I cipher)) cipher of
              Inl a \<Rightarrow> Inl a
            | Inr m \<Rightarrow> EnableHSM_options H I hsm opts (c1\<lparr>enabledCiphers := m\<rparr>))
      else Inl (Fatal ''invalid hsm option''))"

definition EnableHSM ::
  "('h, 'c) HSMInterface \<Rightarrow> 'c cipherInterface \<Rightarrow> ('c, 'h) config \<Rightarrow>
   abort + ('c, 'h) config" where
  "EnableHSM H I c =
     (if HSM c = ''off'' then Inr c
      else
        (let HSMConf = Split (HSM c) CHR '':'' in
         if length HSMConf < 2 then Inl (Fatal ''invalid hsm configuration directive'')
         else
           (let model = HSMConf ! 0 in
            case index (availableHSMs c) model of
              Some val \<Rightarrow>
                (let options = Split (HSMConf ! 1) CHR '','';
                     hsm = HSM_New H val
                 in EnableHSM_options H I hsm options c)
            | None \<Rightarrow> Inl (Fatal ''invalid hsm model''))))"

subsection \<open>Initialisation sequences\<close>

text \<open>
  The registry operations that initialisation runs, in any order and number. A sequence
  stops at the first \<^verbatim>\<open>log.Fatal\<close> or panic, which end the process; it goes on after
  \<^verbatim>\<open>EnableCiphers\<close> returns an error, with the configuration as that call left it.
\<close>

datatype 'c registryOp = Op_SetAvailableCipher 'c | Op_EnableCiphers | Op_EnableHSM

fun registryStep ::
  "('h, 'c) HSMInterface \<Rightarrow> 'c cipherInterface \<Rightarrow> 'c registryOp \<Rightarrow>
   ('c, 'h) config \<Rightarrow> abort + ('c, 'h) config" where
  "registryStep H I (Op_SetAvailableCipher cipher) c = Inr (SetAvailableCipher I c cipher)"
| "registryStep H I Op_EnableCiphers c = Inr (fst (snd (EnableCiphers c)))"
| "registryStep H I Op_EnableHSM c = EnableHSM H I c"

fun registryRun ::
  "('h, 'c) HSMInterface \<Rightarrow> 'c cipherInterface \<Rightarrow> 'c registryOp list \<Rightarrow>
   ('c, 'h) config \<Rightarrow> abort + ('c, 'h) config" where
  "registryRun H I [] c = Inr c"
| "registryRun H I (x # xs) c =
     (case registryStep H I x c of
        Inl a \<Rightarrow> Inl a
      | Inr c1 \<Rightarrow> registryRun H I xs c1)"

definition enabled_subset_available :: "('c, 'h) config \<Rightarrow> bool" where
  "enabled_subset_available c =
     (set (keys (enabledCiphers c)) \<subseteq> set (keys (availableCiphers c)))"

section \<open>The response pipeline and the dispatcher (api.go)\<close>

subsection \<open>Library calls\<close>

text \<open>
  The \<^verbatim>\<open>http.ResponseWriter\<close> of the server. \<^verbatim>\<open>Header().Set\<close> stores into the
  header map. The first \<^verbatim>\<open>WriteHeader\<close> fixes the status code and a later one is
  ignored; \<^verbatim>\<open>Write\<close> writes the status 200 first when none has been written.
\<close>

definition Header_Set :: "response \<Rightarrow> string \<Rightarrow> string \<Rightarrow> response" where
  "Header_Set w k v = w\<lparr>header := AList.update k v (header w)\<rparr>"

definition WriteHeader :: "response \<Rightarrow> nat \<Rightarrow> response" where
  "WriteHeader w i = (case code w of None \<Rightarrow> w\<lparr>code := Some i\<rparr> | Some j \<Rightarrow> w)"

definition Write :: "response \<Rightarrow> string \<Rightarrow> response" where
  "Write w b = (let w1 = WriteHeader w 200 in w1\<lparr>body := body w1 @ b\<rparr>)"

text \<open>
  \<^verbatim>\<open>http.Error(w, msg, code)\<close>: a plain-text reply with the given status and the
  message on a line of its own.
\<close>

definition http_Error :: "response \<Rightarrow> string \<Rightarrow> nat \<Rightarrow> response" where
  "http_Error w msg i =
     (let w1 = Header_Set w ''Content-Type'' ''text/plain; charset=utf-8'';
          w2 = Header_Set w1 ''X-Content-Type-Options'' ''nosniff'';
          w3 = WriteHeader w2 i
      in Write w3 (msg @ [CHR 0x0A]))"

text \<open>
  \<^verbatim>\<open>strings.Replace(s, old, new, -1)\<close>: every occurrence of \<open>old\<close>, found from the
  left and without overlap, becomes \<open>new\<close>. For an empty \<open>old\<close> Go puts \<open>new\<close> before
  every character and at the end (bytes stand for characters here).
\<close>

fun Replace :: "string \<Rightarrow> string \<Rightarrow> string \<Rightarrow> string" where
  "Replace s old new =
     (if old = [] then new @ concat (map (\<lambda>x. x # new) s)
      else if s = [] then []
      else if prefix old s then new @ Replace (drop (length old) s) old new
      else hd s # Replace (tl s) old new)"

declare Replace.simps [simp del]

text \<open>\<^verbatim>\<open>strings.Join(elems, sep)\<close>.\<close>

fun Join :: "string list \<Rightarrow> string \<Rightarrow> string" where
  "Join [] sep = []"
| "Join [x] sep = x"
| "Join (x # y # ys) sep = x @ sep @ Join (y # ys) sep"

text \<open>
  \<^verbatim>\<open>URIPattern.FindStringSubmatch\<close> for the pattern
  \<^verbatim>\<open>/api/([A-Za-z0-9]+)/([a-z0-9_]+)\<close>. The pattern is not anchored: the leftmost
  match anywhere in the string counts. At a given start the first group can only be the
  whole run of letters and digits (a slash has to follow it) and the second group, being
  greedy, is the whole run of lower-case letters, digits and underscores. The result is
  the match and its two groups, or the empty slice.
\<close>

definition alnum :: "char \<Rightarrow> bool" where
  "alnum x = (x \<in> set ''ABCDEFGHIJKLMNOPQRSTUVWXYZabcdefghijklmnopqrstuvwxyz0123456789'')"

definition lower_word :: "char \<Rightarrow> bool" where
  "lower_word x = (x \<in> set ''abcdefghijklmnopqrstuvwxyz0123456789_'')"

definition URIPattern_here :: "string \<Rightarrow> string list" where
  "URIPattern_here s =
     (if prefix ''/api/'' s then
        (let t = drop 5 s;
             g1 = takeWhile alnum t;
             u = dropWhile alnum t
         in if g1 \<noteq> [] \<and> prefix ''/'' u then
              (let g2 = takeWhile lower_word (drop 1 u)
               in if g2 \<noteq> [] then [''/api/'' @ g1 @ ''/'' @ g2, g1, g2] else [])
            else [])
      else [])"

fun FindStringSubmatch :: "string \<Rightarrow> string list" where
  "FindStringSubmatch [] = URIPattern_here []"
| "FindStringSubmatch (x # xs) =
     (if URIPattern_here (x # xs) \<noteq> [] then URIPattern_here (x # xs)
      else FindStringSubmatch xs)"

subsection \<open>The nonce-injecting wrapper\<close>

definition nonceSize :: nat where
  "nonceSize = 32"

definition nonceToken :: string where
  "nonceToken = ''{{ nonce }}''"

record ResponseNoncer =
  noncer_w :: response
  noncer_nonce :: string

definition NewResponseNoncer :: "response \<Rightarrow> string \<Rightarrow> ResponseNoncer" where
  "NewResponseNoncer w n = \<lparr>noncer_w = w, noncer_nonce = n\<rparr>"

definition ResponseNoncer_Header_Set :: "ResponseNoncer \<Rightarrow> string \<Rightarrow> string \<Rightarrow> ResponseNoncer" where
  "ResponseNoncer_Header_Set r k v = r\<lparr>noncer_w := Header_Set (noncer_w r) k v\<rparr>"

definition ResponseNoncer_Write :: "ResponseNoncer \<Rightarrow> string \<Rightarrow> ResponseNoncer" where
  "ResponseNoncer_Write r b =
     (let noncedString = Replace b nonceToken (noncer_nonce r)
      in r\<lparr>noncer_w := Write (noncer_w r) noncedString\<rparr>)"

definition ResponseNoncer_WriteHeader :: "ResponseNoncer \<Rightarrow> nat \<Rightarrow> ResponseNoncer" where
  "ResponseNoncer_WriteHeader r i = r\<lparr>noncer_w := WriteHeader (noncer_w r) i\<rparr>"

text \<open>
  The handler wrapped by \<^verbatim>\<open>applyHeaders\<close> is any \<^verbatim>\<open>http.Handler\<close>. It sees the
  writer only through the three methods of the interface, so what it does with a request
  is the list of its calls, and serving it runs them on the \<^verbatim>\<open>ResponseNoncer\<close>.
\<close>

datatype call = SetHeader string string | WriteStatus nat | WriteBody string

fun ResponseNoncer_call :: "ResponseNoncer \<Rightarrow> call \<Rightarrow> ResponseNoncer" where
  "ResponseNoncer_call n (SetHeader k v) = ResponseNoncer_Header_Set n k v"
| "ResponseNoncer_call n (WriteStatus i) = ResponseNoncer_WriteHeader n i"
| "ResponseNoncer_call n (WriteBody b) = ResponseNoncer_Write n b"

definition ServeHTTP :: "(request \<Rightarrow> call list) \<Rightarrow> ResponseNoncer \<Rightarrow> request \<Rightarrow> ResponseNoncer" where
  "ServeHTTP h n r = foldl ResponseNoncer_call n (h r)"

text \<open>
  \<^verbatim>\<open>encodedRandomString\<close> is declared outside the two source files; the parameter
  stands for its result at this request. The error value built when it fails is dropped,
  as in the source.
\<close>

definition applyHeaders ::
  "(request \<Rightarrow> call list) \<Rightarrow> (nat \<Rightarrow> bool \<Rightarrow> string \<times> error option) \<Rightarrow>
   response \<Rightarrow> request \<Rightarrow> response" where
  "applyHeaders h encodedRandomString w r =
     (let (nonce, err) = encodedRandomString nonceSize False;
          dropped = (if err \<noteq> None then Some ''can't generate a new nonce'' else None);
          w1 = Header_Set w ''Content-Security-Policy''
                 (''default-src 'none'; script-src 'strict-dynamic' 'nonce-'' @ nonce @
                  ''' 'unsafe-eval'; style-src 'self' 'unsafe-inline'; img-src 'self'; connect-src 'self';'');
          w2 = Header_Set w1 ''Cache-Control'' ''no-cache, no-store, max-age=0, must-revalidate'';
          w3 = Header_Set w2 ''Pragma'' ''no-cache'';
          w4 = Header_Set w3 ''Expires'' ''Fri, 07 Jan 1981 00:00:00 GMT'';
          noncer = NewResponseNoncer w4 nonce
      in noncer_w (ServeHTTP h noncer r))"

subsection \<open>The API dispatcher\<close>

text \<open>
  The session store, the JSON rendering of a \<^verbatim>\<open>jsonObject\<close>, the handlers bound in
  the command table and the \<^verbatim>\<open>net/url\<close> parsers are outside the two source files.
  They are the fields of the environment \<open>env\<close>. A handler gets the response written so
  far and returns it with what it wrote added, and its \<^verbatim>\<open>jsonObject\<close>.
  \<open>url_Parse\<close> is \<open>None\<close> when \<^verbatim>\<open>url.Parse\<close> returns an error and a nil URL;
  \<open>url_ParseQuery\<close> gives the values \<^verbatim>\<open>url.ParseQuery\<close> returns, whose error the
  source ignores. The debug log lines are not part of a response and are left out.
\<close>

record URL =
  Path :: string
  RawQuery :: string

datatype route =
    auth_logout | auth_poweroff | luks_change | luks_add | luks_remove | config_time
  | file_list | file_upload | file_download | file_delete | file_move | file_copy
  | file_mkdir | file_extract | file_compress | file_encrypt | file_decrypt | file_sign
  | file_verify | crypto_ciphers | crypto_keys | crypto_gen_key | crypto_upload_key
  | crypto_key_info | status_version | status_running

record env =
  Validate :: "request \<Rightarrow> bool \<times> bool \<times> error option"
  jsonObject_String :: "jsonObject \<Rightarrow> string"
  url_Parse :: "string \<Rightarrow> URL option"
  url_ParseQuery :: "string \<Rightarrow> (string \<times> string list) list"
  login :: "response \<Rightarrow> request \<Rightarrow> response \<times> jsonObject"
  refresh :: "response \<Rightarrow> response \<times> jsonObject"
  fileDownloadByID :: "response \<Rightarrow> string \<Rightarrow> response"
  handler :: "route \<Rightarrow> response \<Rightarrow> request \<Rightarrow> response \<times> jsonObject"

text \<open>The case labels of the switch in \<^verbatim>\<open>handleRequest\<close>: the fixed command table.\<close>

definition fixedRoute :: "string \<Rightarrow> route option" where
  "fixedRoute uri =
     (if uri = ''/api/auth/logout'' then Some auth_logout
      else if uri = ''/api/auth/poweroff'' then Some auth_poweroff
      else if uri = ''/api/luks/change'' then Some luks_change
      else if uri = ''/api/luks/add'' then Some luks_add
      else if uri = ''/api/luks/remove'' then Some luks_remove
      else if uri = ''/api/config/time'' then Some config_time
      else if uri = ''/api/file/list'' then Some file_list
      else if uri = ''/api/file/upload'' then Some file_upload
      else if uri = ''/api/file/download'' then Some file_download
      else if uri = ''/api/file/delete'' then Some file_delete
      else if uri = ''/api/file/move'' then Some file_move
      else if uri = ''/api/file/copy'' then Some file_copy
      else if uri = ''/api/file/mkdir'' then Some file_mkdir
      else if uri = ''/api/file/extract'' then Some file_extract
      else if uri = ''/api/file/compress'' then Some file_compress
      else if uri = ''/api/file/encrypt'' then Some file_encrypt
      else if uri = ''/api/file/decrypt'' then Some file_decrypt
      else if uri = ''/api/file/sign'' then Some file_sign
      else if uri = ''/api/file/verify'' then Some file_verify
      else if uri = ''/api/crypto/ciphers'' then Some crypto_ciphers
      else if uri = ''/api/crypto/keys'' then Some crypto_keys
      else if uri = ''/api/crypto/gen_key'' then Some crypto_gen_key
      else if uri = ''/api/crypto/upload_key'' then Some crypto_upload_key
      else if uri = ''/api/crypto/key_info'' then Some crypto_key_info
      else if uri = ''/api/status/version'' then Some status_version
      else if uri = ''/api/status/running'' then Some status_running
      else None)"

definition notFound :: "response \<Rightarrow> jsonObject" where
  "notFound w = Some [(''status'', JString ''INVALID''), (''response'', JStrings [''invalid method''])]"

definition INVALID_SESSION :: jsonObject where
  "INVALID_SESSION = Some [(''status'', JString ''INVALID_SESSION''), (''response'', JNull)]"

definition sendResponse :: "env \<Rightarrow> response \<Rightarrow> jsonObject \<Rightarrow> response" where
  "sendResponse E w res = Write w (jsonObject_String E res)"

definition handleRequest ::
  "env \<Rightarrow> 'c cipherInterface \<Rightarrow> ('c, 'h) config \<Rightarrow> response \<Rightarrow> request \<Rightarrow> response" where
  "handleRequest E I conf w r =
     (let (w1, res) =
        (case fixedRoute (RequestURI r) of
           Some rt \<Rightarrow>
             (if rt = file_upload then (fst (handler E file_upload w r), None)
              else handler E rt w r)
         | None \<Rightarrow>
             (let m = FindStringSubmatch (RequestURI r) in
              if length m = 3 then
                (case GetAvailableCipher I conf (m ! 1) of
                   Inl err \<Rightarrow> (w, notFound w)
                 | Inr cipher \<Rightarrow> HandleRequest I cipher w r)
              else (w, notFound w)))
      in if res \<noteq> None then sendResponse E w1 res else w1)"

text \<open>\<^verbatim>\<open>p["id"]\<close> on the parsed query: the values of the key, none when it is absent.\<close>

definition Values_index :: "(string \<times> string list) list \<Rightarrow> string \<Rightarrow> string list" where
  "Values_index p k = (case map_of p k of None \<Rightarrow> [] | Some vs \<Rightarrow> vs)"

definition apiHandler ::
  "env \<Rightarrow> 'c cipherInterface \<Rightarrow> ('c, 'h) config \<Rightarrow> response \<Rightarrow> request \<Rightarrow>
   abort + response" where
  "apiHandler E I conf w0 r =
     (let w = Header_Set w0 ''Content-Type'' ''application/json'' in
      if RequestURI r = ''/api/auth/login'' then
        Inr (let (w1, res) = login E w r in sendResponse E w1 res)
      else if RequestURI r = ''/api/auth/refresh'' then
        (case Validate E r of
           (validSessionID, ignored) \<Rightarrow>
             if validSessionID then Inr (let (w1, res) = refresh E w in sendResponse E w1 res)
             else Inr (sendResponse E w INVALID_SESSION))
      else
        (case Validate E r of
           (validSessionID, validXSRFToken, err) \<Rightarrow>
             if \<not> (validSessionID \<and> validXSRFToken) then
               (case url_Parse E (RequestURI r) of
                  None \<Rightarrow> Inl (Panic ''invalid memory address or nil pointer dereference'')
                | Some u \<Rightarrow>
                    if Path u = ''/api/file/upload'' then
                      (case err of
                         None \<Rightarrow> Inl (Panic ''invalid memory address or nil pointer dereference'')
                       | Some e \<Rightarrow> Inr (http_Error w e 401))
                    else if Path u = ''/api/file/download'' \<and> validSessionID then
                      (let p = url_ParseQuery E (RawQuery u) in
                       case Values_index p ''id'' of
                         [] \<Rightarrow> Inl (Panic ''index out of range'')
                       | i # rest \<Rightarrow> Inr (fileDownloadByID E w i))
                    else Inr (sendResponse E w INVALID_SESSION))
             else if validSessionID \<and> validXSRFToken then Inr (handleRequest E I conf w r)
             else Inr (sendResponse E w INVALID_SESSION)))"

section \<open>Worked examples\<close>

text \<open>
  Concrete providers for the examples below. An instance is its \<^verbatim>\<open>cipherInfo\<close> and a
  serial number; \<open>New\<close> hands out the instance with the next serial, so a fresh instance
  differs from the one it was made from. The custom request handler answers with the
  provider's name.
\<close>

definition exampleCiphers :: "(cipherInfo \<times> nat) cipherInterface" where
  "exampleCiphers =
     \<lparr>GetInfo = fst,
      New = (\<lambda>(i, k). (i, Suc k)),
      HandleRequest = (\<lambda>c w r. (w, Some [(''status'', JString ''OK''), (''response'', JString (Name (fst c)))]))\<rparr>"

definition OpenPGP :: "cipherInfo \<times> nat" where
  "OpenPGP = (\<lparr>Name = ''OpenPGP'', Extension = ''pgp''\<rparr>, 0)"

definition AES :: "cipherInfo \<times> nat" where
  "AES = (\<lparr>Name = ''AES-256-OFB'', Extension = ''aes256ofb''\<rparr>, 0)"

definition TOTP :: "cipherInfo \<times> nat" where
  "TOTP = (\<lparr>Name = ''TOTP'', Extension = ''totp''\<rparr>, 0)"

text \<open>The zero value of \<^verbatim>\<open>config\<close>, and \<^verbatim>\<open>SetDefaults\<close> on the fields modelled.\<close>

definition zeroConfig :: "('c, 'h) config" where
  "zeroConfig =
     \<lparr>Debug = False, HSM = [], Ciphers = [], availableCiphers = None,
      enabledCiphers = None, availableHSMs = None, authHSM = None, tlsHSM = None\<rparr>"

definition SetDefaults :: "('c, 'h) config \<Rightarrow> ('c, 'h) config" where
  "SetDefaults c =
     c\<lparr>Debug := False, HSM := ''off'', Ciphers := [''OpenPGP'', ''AES-256-OFB'', ''TOTP'']\<rparr>"

definition exampleConfig :: "(cipherInfo \<times> nat, nat) config" where
  "exampleConfig =
     SetAvailableCipher exampleCiphers
       (SetAvailableCipher exampleCiphers
          (SetAvailableCipher exampleCiphers (SetDefaults zeroConfig) OpenPGP) AES) TOTP"

text \<open>
  An example HSM model: an instance is a serial number, and the cipher it supplies is
  hardware-backed AES.
\<close>

definition exampleHSMs :: "(nat, cipherInfo \<times> nat) HSMInterface" where
  "exampleHSMs =
     \<lparr>HSM_New = Suc,
      Cipher = (\<lambda>h. (\<lparr>Name = ''AES-256-SCC'', Extension = ''aes256scc''\<rparr>, h))\<rparr>"

text \<open>
  An example environment of the dispatcher: a session store that knows no session, a
  plain JSON rendering, parsers for a request URI of the form path?key=value, and
  handlers that answer \<open>OK\<close>.
\<close>

definition quoted :: "string \<Rightarrow> string" where
  "quoted s = CHR 0x22 # s @ [CHR 0x22]"

fun exampleJSON :: "json \<Rightarrow> string" where
  "exampleJSON JNull = ''null''"
| "exampleJSON (JString s) = quoted s"
| "exampleJSON (JStrings ss) = ''['' @ Join (map quoted ss) '','' @ '']''"

fun exampleString :: "jsonObject \<Rightarrow> string" where
  "exampleString None = ''null''"
| "exampleString (Some kvs) =
     ''{'' @ Join (map (\<lambda>(k, v). quoted k @ '':'' @ exampleJSON v) kvs) '','' @ ''}''"

definition exampleEnv :: env where
  "exampleEnv =
     \<lparr>Validate = (\<lambda>r. (False, False, Some ''invalid session'')),
      jsonObject_String = exampleString,
      url_Parse = (\<lambda>s. Some \<lparr>Path = takeWhile (\<lambda>x. x \<noteq> CHR ''?'') s,
                              RawQuery = drop 1 (dropWhile (\<lambda>x. x \<noteq> CHR ''?'') s)\<rparr>),
      url_ParseQuery = (\<lambda>q. if q = [] then []
                            else [(takeWhile (\<lambda>x. x \<noteq> CHR ''='') q,
                                   [drop 1 (dropWhile (\<lambda>x. x \<noteq> CHR ''='') q)])]),
      login = (\<lambda>w r. (w, Some [(''status'', JString ''OK''), (''response'', JString ''token'')])),
      refresh = (\<lambda>w. (w, Some [(''status'', JString ''OK''), (''response'', JString ''token'')])),
      fileDownloadByID = (\<lambda>w i. Write w (''file '' @ i)),
      handler = (\<lambda>rt w r. (w, Some [(''status'', JString ''OK''), (''response'', JNull)]))\<rparr>"

definition emptyResponse :: response where
  "emptyResponse = \<lparr>header = [], code = None, body = []\<rparr>"

definition GET :: "string \<Rightarrow> request" where
  "GET uri = \<lparr>RemoteAddr = ''10.0.0.2:4430'', Method = ''GET'', RequestURI = uri\<rparr>"

text \<open>
  Two more session stores: one that finds the session valid and the XSRF token missing,
  and one that finds both valid. And the example configuration with only two of its
  three ciphers enabled.
\<close>

definition sessionOnly :: env where
  "sessionOnly = exampleEnv\<lparr>Validate := (\<lambda>r. (True, False, Some ''missing XSRFToken''))\<rparr>"

definition fullyValid :: env where
  "fullyValid = exampleEnv\<lparr>Validate := (\<lambda>r. (True, True, None))\<rparr>"

definition restrictedConfig :: "(cipherInfo \<times> nat, nat) config" where
  "restrictedConfig =
     fst (snd (EnableCiphers (exampleConfig\<lparr>Ciphers := [''AES-256-OFB'', ''TOTP'']\<rparr>)))"

section \<open>Properties of the registry\<close>

lemma index_Some_iff: "index (Some kvs) k = map_of kvs k"
  by (simp add: index_def entries_def)

lemma EnableCiphers_loop_miss:
  "\<exists>n \<in> set ns. index (availableCiphers c) n = None \<Longrightarrow>
   \<exists>e c'. EnableCiphers_loop ns c = (Some e, c', PrintAvailableCiphers c')
          \<and> availableCiphers c' = availableCiphers c"
proof (induction ns arbitrary: c)
  case Nil
  then show ?case by simp
next
  case (Cons n ns)
  show ?case
  proof (cases "index (availableCiphers c) n")
    case None
    then show ?thesis by simp
  next
    case (Some val)
    let ?c1 = "c\<lparr>enabledCiphers := Some (AList.update n val (entries (enabledCiphers c)))\<rparr>"
    from Cons.prems Some have "\<exists>n \<in> set ns. index (availableCiphers ?c1) n = None"
      by auto
    from Cons.IH [OF this] Some show ?thesis by simp
  qed
qed

lemma EnableCiphers_loop_ok:
  "EnableCiphers_loop ns c = (None, c', l) \<Longrightarrow>
   availableCiphers c' = availableCiphers c \<and> l = [] \<and>
   (\<forall>n \<in> set ns. index (availableCiphers c) n \<noteq> None
        \<and> index (enabledCiphers c') n = index (availableCiphers c) n) \<and>
   (\<forall>k. k \<notin> set ns \<longrightarrow> index (enabledCiphers c') k = index (enabledCiphers c) k)"
proof (induction ns arbitrary: c)
  case Nil
  then show ?case by simp
next
  case (Cons n ns)
  show ?case
  proof (cases "index (availableCiphers c) n")
    case None
    with Cons.prems show ?thesis by simp
  next
    case (Some val)
    let ?c1 = "c\<lparr>enabledCiphers := Some (AList.update n val (entries (enabledCiphers c)))\<rparr>"
    from Cons.prems Some have run: "EnableCiphers_loop ns ?c1 = (None, c', l)"
      by simp
    note ih = Cons.IH [OF run]
    have upd: "index (enabledCiphers ?c1) k = (if k = n then Some val else index (enabledCiphers c) k)" for k
      by (simp add: index_def entries_def update_conv')
    from ih have av: "availableCiphers c' = availableCiphers c" and l: "l = []"
      by simp_all
    have "index (enabledCiphers c') n = Some val"
    proof (cases "n \<in> set ns")
      case True
      with ih Some show ?thesis by simp
    next
      case False
      with ih upd show ?thesis by simp
    qed
    with ih upd Some av l show ?thesis by auto
  qed
qed


lemmas example_defs = exampleConfig_def exampleCiphers_def OpenPGP_def AES_def TOTP_def
  zeroConfig_def SetDefaults_def SetAvailableCipher_def entries_def index_def keys_def

subsection \<open>Enabling the configured ciphers\<close>

text \<open>
  Claim C1. Whatever the configured list of cipher names is: if one of its names is not a
  key of the available map, \<^verbatim>\<open>EnableCiphers\<close> returns an error, and what it logged
  is the heading followed by every key of the available map; and if it returns no error,
  every configured name is a key of the available map and the enabled map binds it to the
  provider the available map holds under that name.
\<close>

theorem EnableCiphers_fails_closed:
  "((\<exists>n \<in> set (Ciphers c). index (availableCiphers c) n = None) \<longrightarrow>
      (\<exists>e c'. EnableCiphers c =
          (Some e, c', ''supported ciphers:'' # map (\<lambda>k. CHR 0x09 # k) (keys (availableCiphers c))))) \<and>
   (\<forall>c' l. EnableCiphers c = (None, c', l) \<longrightarrow>
      (\<forall>n \<in> set (Ciphers c). \<exists>val. index (availableCiphers c) n = Some val
                                    \<and> index (enabledCiphers c') n = Some val))"
proof (intro conjI impI allI)
  let ?c = "if enabledCiphers c = None then c\<lparr>enabledCiphers := Some []\<rparr> else c"
  have same: "availableCiphers ?c = availableCiphers c" "Ciphers ?c = Ciphers c"
    by simp_all
  {
    assume miss: "\<exists>n \<in> set (Ciphers c). index (availableCiphers c) n = None"
    then have ne: "length (Ciphers ?c) \<noteq> 0"
      by auto
    from miss same have "\<exists>n \<in> set (Ciphers ?c). index (availableCiphers ?c) n = None"
      by simp
    from EnableCiphers_loop_miss [OF this]
    obtain e c' where "EnableCiphers_loop (Ciphers ?c) ?c = (Some e, c', PrintAvailableCiphers c')"
      and "availableCiphers c' = availableCiphers ?c"
      by blast
    with ne same
    show "\<exists>e c'. EnableCiphers c =
          (Some e, c', ''supported ciphers:'' # map (\<lambda>k. CHR 0x09 # k) (keys (availableCiphers c)))"
      unfolding EnableCiphers_def Let_def PrintAvailableCiphers_def by auto
  }
  {
    fix c' l
    assume ok: "EnableCiphers c = (None, c', l)"
    have "EnableCiphers_loop (Ciphers ?c) ?c = (None, c', l)"
    proof (cases "enabledCiphers c = None")
      case True
      with ok show ?thesis
        unfolding EnableCiphers_def Let_def by (simp split: if_splits)
    next
      case False
      with ok show ?thesis
        unfolding EnableCiphers_def Let_def by (simp split: if_splits)
    qed
    from EnableCiphers_loop_ok [OF this] same
    show "\<forall>n \<in> set (Ciphers c). \<exists>val. index (availableCiphers c) n = Some val
                                    \<and> index (enabledCiphers c') n = Some val"
      by auto
  }
qed

theorem EnableCiphers_fails_closed_witness:
  "(\<exists>n \<in> set (Ciphers (exampleConfig\<lparr>Ciphers := [''OpenPGP'', ''Blowfish'']\<rparr>)).
      index (availableCiphers (exampleConfig\<lparr>Ciphers := [''OpenPGP'', ''Blowfish'']\<rparr>)) n = None) \<and>
   (\<exists>e c'. EnableCiphers (exampleConfig\<lparr>Ciphers := [''OpenPGP'', ''Blowfish'']\<rparr>) =
      (Some e, c', ''supported ciphers:'' #
          map (\<lambda>k. CHR 0x09 # k) [''OpenPGP'', ''AES-256-OFB'', ''TOTP''])) \<and>
   (\<exists>c' l. EnableCiphers exampleConfig = (None, c', l) \<and>
      index (availableCiphers exampleConfig) ''TOTP'' = Some TOTP \<and>
      index (enabledCiphers c') ''TOTP'' = Some TOTP)"
proof -
  let ?bad = "exampleConfig\<lparr>Ciphers := [''OpenPGP'', ''Blowfish'']\<rparr>"
  have miss: "\<exists>n \<in> set (Ciphers ?bad). index (availableCiphers ?bad) n = None"
    by (simp add: example_defs)
  have ks: "keys (availableCiphers ?bad) = [''OpenPGP'', ''AES-256-OFB'', ''TOTP'']"
    by (simp add: example_defs)
  from EnableCiphers_fails_closed [of ?bad] miss
  have fails: "\<exists>e c'. EnableCiphers ?bad =
      (Some e, c', ''supported ciphers:'' # map (\<lambda>k. CHR 0x09 # k) (keys (availableCiphers ?bad)))"
    by blast
  obtain c' l where ok: "EnableCiphers exampleConfig = (None, c', l)"
    by (simp add: EnableCiphers_def example_defs)
  have av: "index (availableCiphers exampleConfig) ''TOTP'' = Some TOTP"
    by (simp add: example_defs)
  have "''TOTP'' \<in> set (Ciphers exampleConfig)"
    by (simp add: example_defs)
  with EnableCiphers_fails_closed [of exampleConfig] ok
  have "\<exists>val. index (availableCiphers exampleConfig) ''TOTP'' = Some val
            \<and> index (enabledCiphers c') ''TOTP'' = Some val"
    by blast
  with av have "index (enabledCiphers c') ''TOTP'' = Some TOTP"
    by simp
  with miss fails ks ok av show ?thesis
    by (simp only:) blast
qed

subsection \<open>Looking a provider up\<close>

lemma GetCipherByExt_range_stored:
  "GetCipherByExt_range I vals ext = Inr val \<Longrightarrow> val \<in> set vals \<and> Extension (GetInfo I val) = ext"
  by (induction vals) (auto split: if_splits)

lemma GetCipherByExt_range_invalid:
  "(GetCipherByExt_range I vals ext = Inl e) =
   (e = ''invalid cipher'' \<and> (\<forall>val \<in> set vals. Extension (GetInfo I val) \<noteq> ext))"
  by (induction vals) auto

text \<open>
  Claim C2. Both lookups of an enabled provider should return the result of \<open>New\<close> on
  the stored provider. \<^verbatim>\<open>GetCipher\<close> does. \<^verbatim>\<open>GetCipherByExt\<close> returns the
  stored instance itself: with the three example ciphers enabled, the lookup of the
  extension \<open>pgp\<close> gives the very instance the enabled map holds under \<open>OpenPGP\<close>,
  which is not the fresh instance that the lookup by name gives. (By
  \<open>GetCipherByExt_range_stored\<close> the result is always one of the stored values; an
  extension no stored value has gives the error, by \<open>GetCipherByExt_range_invalid\<close>.)
\<close>

theorem GetCipherByExt_returns_stored_instance:
  "GetCipherByExt exampleCiphers (fst (snd (EnableCiphers exampleConfig))) ''pgp'' = Inr OpenPGP \<and>
   index (enabledCiphers (fst (snd (EnableCiphers exampleConfig)))) ''OpenPGP'' = Some OpenPGP \<and>
   New exampleCiphers OpenPGP \<noteq> OpenPGP \<and>
   GetCipher exampleCiphers (fst (snd (EnableCiphers exampleConfig))) ''OpenPGP''
     = Inr (New exampleCiphers OpenPGP)"
  by (simp add: GetCipherByExt_def GetCipher_def EnableCiphers_def example_defs)

subsection \<open>Binding an HSM\<close>

text \<open>
  What \<^verbatim>\<open>EnableHSM\<close> does on each form of the directive: \<open>off\<close> changes
  nothing; a directive without a colon, a model that is not registered and an option
  other than \<open>luks\<close>, \<open>tls\<close> and \<open>cipher\<close> end in \<^verbatim>\<open>log.Fatal\<close>; and
  \<open>luks,cipher\<close> on a registered model, once the enabled map has been made, binds one
  fresh instance as \<open>authHSM\<close> and stores its cipher in both maps.
\<close>

lemma Split_not_Nil: "Split s sep \<noteq> []"
  by (induction s) (auto split: list.splits)

lemma Split_no_sep: "sep \<notin> set s \<Longrightarrow> Split s sep = [s]"
  by (induction s) auto

lemma Split_at_sep: "sep \<notin> set a \<Longrightarrow> Split (a @ sep # b) sep = a # Split b sep"
  by (induction a) auto

lemma EnableHSM_off: "HSM c = ''off'' \<Longrightarrow> EnableHSM H I c = Inr c"
  by (simp add: EnableHSM_def)

lemma EnableHSM_no_separator:
  "HSM c \<noteq> ''off'' \<Longrightarrow> CHR '':'' \<notin> set (HSM c) \<Longrightarrow>
   EnableHSM H I c = Inl (Fatal ''invalid hsm configuration directive'')"
  by (simp add: EnableHSM_def Split_no_sep)

lemma EnableHSM_unregistered_model:
  assumes "HSM c = model @ CHR '':'' # rest" "CHR '':'' \<notin> set model"
      and "index (availableHSMs c) model = None"
  shows "EnableHSM H I c = Inl (Fatal ''invalid hsm model'')"
proof -
  from assms(1) have "CHR '':'' \<in> set (HSM c)"
    by simp
  then have off: "HSM c \<noteq> ''off''"
    by auto
  obtain y ys where sp: "Split rest CHR '':'' = y # ys"
    using Split_not_Nil [of rest "CHR '':''"] by (cases "Split rest CHR '':''") auto
  with assms off show ?thesis
    by (simp add: EnableHSM_def Split_at_sep Let_def)
qed

lemma EnableHSM_options_unknown:
  "enabledCiphers c \<noteq> None \<Longrightarrow> opt \<in> set opts \<Longrightarrow>
   opt \<noteq> ''luks'' \<Longrightarrow> opt \<noteq> ''tls'' \<Longrightarrow> opt \<noteq> ''cipher'' \<Longrightarrow>
   EnableHSM_options H I hsm opts c = Inl (Fatal ''invalid hsm option'')"
proof (induction opts arbitrary: c)
  case Nil
  then show ?case by simp
next
  case (Cons x xs)
  show ?case
  proof (cases "x = opt")
    case True
    with Cons.prems show ?thesis by simp
  next
    case False
    with Cons.prems have mem: "opt \<in> set xs"
      by simp
    have step: "EnableHSM_options H I hsm xs c1 = Inl (Fatal ''invalid hsm option'')"
      if "enabledCiphers c1 \<noteq> None" for c1
      using Cons.IH [OF that mem Cons.prems(3,4,5)] .
    from Cons.prems(1) obtain en where en: "enabledCiphers c = Some en"
      by auto
    show ?thesis
      using en step
      by (simp add: Let_def assign_def SetAvailableCipher_def)
  qed
qed

lemma EnableHSM_luks_cipher:
  assumes dir: "HSM c = model @ '':luks,cipher''" and model: "CHR '':'' \<notin> set model"
      and reg: "index (availableHSMs c) model = Some val"
      and made: "enabledCiphers c = Some en"
  shows "\<exists>c'. EnableHSM H I c = Inr c' \<and>
           authHSM c' = Some (HSM_New H val) \<and>
           index (availableCiphers c') (Name (GetInfo I (Cipher H (HSM_New H val))))
             = Some (Cipher H (HSM_New H val)) \<and>
           index (enabledCiphers c') (Name (GetInfo I (Cipher H (HSM_New H val))))
             = Some (Cipher H (HSM_New H val))"
proof -
  from dir have "CHR '':'' \<in> set (HSM c)"
    by simp
  then have off: "HSM c \<noteq> ''off''"
    by auto
  from dir have dir': "HSM c = model @ CHR '':'' # ''luks,cipher''"
    by simp
  have sp: "Split (HSM c) CHR '':'' = [model, ''luks,cipher'']"
    unfolding dir' by (simp add: Split_at_sep [OF model])
  have opts: "Split ''luks,cipher'' CHR '','' = [''luks'', ''cipher'']"
    by simp
  show ?thesis
    using off reg made
    by (simp add: EnableHSM_def sp opts Let_def assign_def SetAvailableCipher_def
          index_def entries_def update_conv')
qed

text \<open>
  Claim C6. On the directive \<open>x:luks,cipher\<close> with a registered model \<open>x\<close>,
  \<^verbatim>\<open>EnableHSM\<close> should leave the cipher of \<open>x\<close> in the available and in the
  enabled map; \<open>EnableHSM_luks_cipher\<close> shows it does when the enabled map has been
  made. On a configuration whose enabled map has not been made (only
  \<^verbatim>\<open>EnableCiphers\<close> makes it) the store into the enabled map panics instead.
\<close>

theorem EnableHSM_cipher_into_nil_map_panics:
  "EnableHSM exampleHSMs exampleCiphers
     ((SetAvailableHSM zeroConfig ''x'' 0)\<lparr>HSM := ''x:luks,cipher''\<rparr>)
   = Inl (Panic ''assignment to entry in nil map'')"
  by (simp add: EnableHSM_def SetAvailableHSM_def assign_def exampleHSMs_def example_defs)

subsection \<open>The enabled names are available names\<close>

lemma keys_update: "fst ` set (AList.update k v al) = insert k (fst ` set al)"
  by (simp add: dom_update)

lemma SetAvailableCipher_inv:
  "enabled_subset_available c \<Longrightarrow> enabled_subset_available (SetAvailableCipher I c x)"
  by (auto simp: enabled_subset_available_def SetAvailableCipher_def keys_def entries_def Let_def
        keys_update split: option.splits)

lemma map_of_Some_key: "map_of al k = Some v \<Longrightarrow> k \<in> fst ` set al"
  by (force dest: map_of_SomeD)

lemma EnableCiphers_loop_inv:
  "enabled_subset_available c \<Longrightarrow> enabled_subset_available (fst (snd (EnableCiphers_loop ns c)))"
proof (induction ns arbitrary: c)
  case Nil
  then show ?case by simp
next
  case (Cons n ns)
  show ?case
  proof (cases "index (availableCiphers c) n")
    case None
    with Cons.prems show ?thesis by simp
  next
    case (Some val)
    let ?c1 = "c\<lparr>enabledCiphers := Some (AList.update n val (entries (enabledCiphers c)))\<rparr>"
    from Some have "n \<in> set (keys (availableCiphers c))"
      by (simp add: index_def keys_def map_of_Some_key)
    with Cons.prems have "enabled_subset_available ?c1"
      by (auto simp: enabled_subset_available_def keys_def entries_def keys_update)
    from Cons.IH [OF this] Some show ?thesis by simp
  qed
qed

lemma EnableCiphers_inv:
  "enabled_subset_available c \<Longrightarrow> enabled_subset_available (fst (snd (EnableCiphers c)))"
proof -
  assume inv: "enabled_subset_available c"
  have made: "enabled_subset_available (c\<lparr>enabledCiphers := Some []\<rparr>)"
    by (simp add: enabled_subset_available_def keys_def entries_def)
  show ?thesis
  proof (cases "enabledCiphers c = None")
    case True
    with EnableCiphers_loop_inv [OF made, of "Ciphers c"] made show ?thesis
      by (simp add: EnableCiphers_def Let_def)
  next
    case False
    with EnableCiphers_loop_inv [OF inv, of "Ciphers c"] inv show ?thesis
      by (auto simp add: EnableCiphers_def Let_def)
  qed
qed

lemma EnableHSM_options_inv:
  "enabled_subset_available c \<Longrightarrow> EnableHSM_options H I hsm opts c = Inr c' \<Longrightarrow>
   enabled_subset_available c'"
proof (induction opts arbitrary: c)
  case Nil
  then show ?case by simp
next
  case (Cons opt opts)
  consider (luks) "opt = ''luks''" | (tls) "opt \<noteq> ''luks''" "opt = ''tls''"
    | (cipher) "opt \<noteq> ''luks''" "opt \<noteq> ''tls''" "opt = ''cipher''"
    | (other) "opt \<noteq> ''luks''" "opt \<noteq> ''tls''" "opt \<noteq> ''cipher''"
    by blast
  then show ?case
  proof cases
    case luks
    from Cons.prems(1) have "enabled_subset_available (c\<lparr>authHSM := Some hsm\<rparr>)"
      by (simp add: enabled_subset_available_def)
    from Cons.IH [OF this] Cons.prems(2) luks show ?thesis by simp
  next
    case tls
    from Cons.prems(1) have "enabled_subset_available (c\<lparr>tlsHSM := Some hsm\<rparr>)"
      by (simp add: enabled_subset_available_def)
    from Cons.IH [OF this] Cons.prems(2) tls show ?thesis by simp
  next
    case cipher
    let ?x = "Cipher H hsm"
    let ?c1 = "SetAvailableCipher I c ?x"
    from Cons.prems(2) cipher obtain kvs where
      en: "enabledCiphers ?c1 = Some kvs" and
      run: "EnableHSM_options H I hsm opts
              (?c1\<lparr>enabledCiphers := Some (AList.update (Name (GetInfo I ?x)) ?x kvs)\<rparr>) = Inr c'"
      by (auto simp: assign_def Let_def split: option.splits)
    have inv1: "enabled_subset_available ?c1"
      by (rule SetAvailableCipher_inv [OF Cons.prems(1)])
    have "Name (GetInfo I ?x) \<in> set (keys (availableCiphers ?c1))"
      by (simp add: SetAvailableCipher_def keys_def entries_def Let_def keys_update)
    with inv1 en
    have "enabled_subset_available
            (?c1\<lparr>enabledCiphers := Some (AList.update (Name (GetInfo I ?x)) ?x kvs)\<rparr>)"
      by (auto simp: enabled_subset_available_def keys_def entries_def keys_update)
    from Cons.IH [OF this run] show ?thesis .
  next
    case other
    with Cons.prems(2) show ?thesis by simp
  qed
qed

lemma EnableHSM_inv:
  "enabled_subset_available c \<Longrightarrow> EnableHSM H I c = Inr c' \<Longrightarrow> enabled_subset_available c'"
  unfolding EnableHSM_def Let_def
  by (auto split: if_splits option.splits dest: EnableHSM_options_inv)

lemma registryStep_inv:
  "enabled_subset_available c \<Longrightarrow> registryStep H I x c = Inr c' \<Longrightarrow> enabled_subset_available c'"
  by (cases x) (auto simp: SetAvailableCipher_inv EnableCiphers_inv dest: EnableHSM_inv)

text \<open>
  Claim C9. From a configuration in which every key of the enabled map is a key of the
  available map (the zero configuration is one), every sequence of
  \<^verbatim>\<open>SetAvailableCipher\<close>, \<^verbatim>\<open>EnableCiphers\<close> and \<^verbatim>\<open>EnableHSM\<close> that runs to
  its end leaves a configuration in which this holds again.
\<close>

theorem registry_enabled_subset_available:
  "enabled_subset_available c \<Longrightarrow> registryRun H I ops c = Inr c' \<Longrightarrow>
   enabled_subset_available c'"
proof (induction ops arbitrary: c)
  case Nil
  then show ?case by simp
next
  case (Cons x xs)
  from Cons.prems(2) obtain c1 where step: "registryStep H I x c = Inr c1"
    and run: "registryRun H I xs c1 = Inr c'"
    by (auto split: sum.splits)
  from registryStep_inv [OF Cons.prems(1) step] have "enabled_subset_available c1" .
  from Cons.IH [OF this run] show ?case .
qed

theorem registry_enabled_subset_available_witness:
  "enabled_subset_available
     ((SetAvailableHSM zeroConfig ''x'' 0 :: (cipherInfo \<times> nat, nat) config)
        \<lparr>HSM := ''x:luks,cipher'', Ciphers := [''TOTP'']\<rparr>) \<and>
   (\<exists>c'. registryRun exampleHSMs exampleCiphers
           [Op_SetAvailableCipher OpenPGP, Op_SetAvailableCipher TOTP, Op_EnableCiphers, Op_EnableHSM]
           ((SetAvailableHSM zeroConfig ''x'' 0)\<lparr>HSM := ''x:luks,cipher'', Ciphers := [''TOTP'']\<rparr>)
         = Inr c' \<and>
         keys (enabledCiphers c') = [''TOTP'', ''AES-256-SCC''] \<and>
         keys (availableCiphers c') = [''OpenPGP'', ''TOTP'', ''AES-256-SCC''] \<and>
         enabled_subset_available c')"
proof -
  let ?c = "(SetAvailableHSM zeroConfig ''x'' 0 :: (cipherInfo \<times> nat, nat) config)
              \<lparr>HSM := ''x:luks,cipher'', Ciphers := [''TOTP'']\<rparr>"
  let ?ops = "[Op_SetAvailableCipher OpenPGP, Op_SetAvailableCipher TOTP, Op_EnableCiphers, Op_EnableHSM]"
  have start: "enabled_subset_available ?c"
    by (simp add: enabled_subset_available_def SetAvailableHSM_def example_defs)
  obtain c' where run: "registryRun exampleHSMs exampleCiphers ?ops ?c = Inr c'"
    and en: "keys (enabledCiphers c') = [''TOTP'', ''AES-256-SCC'']"
    and av: "keys (availableCiphers c') = [''OpenPGP'', ''TOTP'', ''AES-256-SCC'']"
    by (simp add: EnableHSM_def EnableCiphers_def SetAvailableHSM_def assign_def Let_def
          exampleHSMs_def example_defs)
  from registry_enabled_subset_available [OF start run]
  have "enabled_subset_available c'" .
  with start run en av show ?thesis
    by blast
qed

section \<open>Properties of the response pipeline\<close>

subsection \<open>Replacing the placeholder\<close>

text \<open>
  The placeholder has no border: no proper suffix of it is a prefix of it. So an
  occurrence of the placeholder cannot overlap another one, and in a body that joins
  placeholder-free segments by the placeholder, the placeholders between the segments
  are all its occurrences.
\<close>

lemma nonceToken_length: "length nonceToken = 11"
  by (simp add: nonceToken_def)

lemma nonceToken_unbordered:
  "0 < d \<Longrightarrow> d < 11 \<Longrightarrow> drop d nonceToken \<noteq> take (11 - d) nonceToken"
proof -
  assume "0 < d" "d < 11"
  then have "d = 1 \<or> d = 2 \<or> d = 3 \<or> d = 4 \<or> d = 5 \<or> d = 6 \<or> d = 7
    \<or> d = 8 \<or> d = 9 \<or> d = 10"
    by arith
  then show ?thesis
    by (elim disjE) (simp_all add: nonceToken_def)
qed

lemma nonceToken_not_straddling:
  assumes pre: "prefix nonceToken (seg @ nonceToken @ rest)" and ne: "seg \<noteq> []"
  shows "sublist nonceToken seg"
proof (cases "11 \<le> length seg")
  case True
  from pre have "take 11 (seg @ nonceToken @ rest) = nonceToken"
    by (metis nonceToken_length prefix_def append_eq_conv_conj)
  with True have "take 11 seg = nonceToken"
    by simp
  then have "prefix nonceToken seg"
    by (metis take_is_prefix)
  then show ?thesis
    by (rule prefix_imp_sublist)
next
  case False
  let ?d = "length seg"
  from False ne have d: "0 < ?d" "?d < 11"
    by simp_all
  from pre have "take 11 (seg @ nonceToken @ rest) = nonceToken"
    by (metis nonceToken_length prefix_def append_eq_conv_conj)
  with d have eq: "seg @ take (11 - ?d) nonceToken = nonceToken"
    by (simp add: nonceToken_length)
  then have "drop ?d (seg @ take (11 - ?d) nonceToken) = drop ?d nonceToken"
    by simp
  then have "take (11 - ?d) nonceToken = drop ?d nonceToken"
    by simp
  with nonceToken_unbordered [OF d] show ?thesis
    by simp
qed

lemma Replace_nonceToken_Nil: "Replace [] nonceToken new = []"
  by (subst Replace.simps) (simp add: nonceToken_def)

lemma Replace_nonceToken_Cons:
  "Replace (x # xs) nonceToken new =
     (if prefix nonceToken (x # xs) then new @ Replace (drop 11 (x # xs)) nonceToken new
      else x # Replace xs nonceToken new)"
proof -
  have "nonceToken \<noteq> []"
    by (simp add: nonceToken_def)
  then show ?thesis
    by (subst Replace.simps) (simp add: nonceToken_length)
qed

lemma Replace_token_free:
  "\<not> sublist nonceToken s \<Longrightarrow> Replace s nonceToken new = s"
proof (induction s)
  case Nil
  show ?case by (rule Replace_nonceToken_Nil)
next
  case (Cons x xs)
  from Cons.prems have "\<not> prefix nonceToken (x # xs)" and "\<not> sublist nonceToken xs"
    by (auto simp: sublist_Cons_right)
  with Cons.IH show ?case
    by (simp add: Replace_nonceToken_Cons)
qed

lemma Replace_at_token:
  "\<not> sublist nonceToken seg \<Longrightarrow>
   Replace (seg @ nonceToken @ rest) nonceToken new = seg @ new @ Replace rest nonceToken new"
proof (induction seg)
  case Nil
  have "nonceToken @ rest \<noteq> []"
    by (simp add: nonceToken_def)
  then obtain x xs where split: "nonceToken @ rest = x # xs"
    by (cases "nonceToken @ rest") auto
  have "prefix nonceToken (x # xs)"
    unfolding split [symmetric] by simp
  moreover have "drop 11 (x # xs) = rest"
    unfolding split [symmetric] by (simp add: nonceToken_length)
  ultimately show ?case
    by (simp add: split Replace_nonceToken_Cons del: drop_Suc_Cons)
next
  case (Cons x seg)
  from Cons.prems have free: "\<not> sublist nonceToken seg"
    by (auto simp: sublist_Cons_right)
  have "\<not> prefix nonceToken ((x # seg) @ nonceToken @ rest)"
    using nonceToken_not_straddling [of "x # seg" rest] Cons.prems by blast
  with Cons.IH [OF free] show ?case
    by (simp add: Replace_nonceToken_Cons)
qed

lemma Replace_Join_Cons:
  "\<forall>seg \<in> set (x # ys). \<not> sublist nonceToken seg \<Longrightarrow>
   Replace (Join (x # ys) nonceToken) nonceToken new = Join (x # ys) new"
proof (induction ys arbitrary: x)
  case Nil
  then show ?case by (simp add: Replace_token_free)
next
  case (Cons y ys)
  from Cons.prems have "\<forall>seg \<in> set (y # ys). \<not> sublist nonceToken seg"
    and "\<not> sublist nonceToken x"
    by simp_all
  with Cons.IH [of y] show ?case
    by (simp add: Replace_at_token)
qed

lemma Replace_Join:
  "\<forall>seg \<in> set segs. \<not> sublist nonceToken seg \<Longrightarrow>
   Replace (Join segs nonceToken) nonceToken new = Join segs new"
proof (cases segs)
  case Nil
  then show ?thesis by (simp add: Replace_nonceToken_Nil)
next
  case (Cons x ys)
  assume "\<forall>seg \<in> set segs. \<not> sublist nonceToken seg"
  with Cons show ?thesis
    using Replace_Join_Cons [of x ys new] by simp
qed

subsection \<open>The wrapper\<close>

lemma map_of_Header_Set:
  "map_of (header (Header_Set w k v)) k' = (if k' = k then Some v else map_of (header w) k')"
  by (simp add: Header_Set_def update_conv')

lemma Header_Set_code_body: "code (Header_Set w k v) = code w" "body (Header_Set w k v) = body w"
  by (simp_all add: Header_Set_def)

lemma ResponseNoncer_call_nonce: "noncer_nonce (ResponseNoncer_call n x) = noncer_nonce n"
  by (cases x)
     (simp_all add: ResponseNoncer_Header_Set_def ResponseNoncer_WriteHeader_def
        ResponseNoncer_Write_def)

lemma ResponseNoncer_calls_nonce:
  "noncer_nonce (foldl ResponseNoncer_call n cs) = noncer_nonce n"
  by (induction cs arbitrary: n) (simp_all add: ResponseNoncer_call_nonce)

subsection \<open>The nonce in the header and in the body\<close>

text \<open>
  Claim C7. For every request that passes through \<^verbatim>\<open>applyHeaders\<close>, with \<open>nonce\<close>
  the string that \<^verbatim>\<open>encodedRandomString(nonceSize, false)\<close> returned: the wrapped
  handler runs on a \<^verbatim>\<open>ResponseNoncer\<close> that carries this nonce over a response
  \<open>w1\<close> in which the Content-Security-Policy header holds the nonce in its script-src
  directive and Cache-Control, Pragma and Expires forbid caching, while status and body
  are still untouched; whatever the handler calls, the nonce of the
  \<^verbatim>\<open>ResponseNoncer\<close> stays this one; and a write of bytes that are placeholder-free
  segments joined by the placeholder reaches the underlying writer as the same segments
  joined by the nonce.
\<close>

theorem applyHeaders_nonce:
  assumes rnd: "encodedRandomString nonceSize False = (nonce, err)"
  shows "\<exists>w1.
     applyHeaders h encodedRandomString w r = noncer_w (ServeHTTP h (NewResponseNoncer w1 nonce) r) \<and>
     map_of (header w1) ''Content-Security-Policy'' =
       Some (''default-src 'none'; script-src 'strict-dynamic' 'nonce-'' @ nonce @
             ''' 'unsafe-eval'; style-src 'self' 'unsafe-inline'; img-src 'self'; connect-src 'self';'') \<and>
     map_of (header w1) ''Cache-Control'' = Some ''no-cache, no-store, max-age=0, must-revalidate'' \<and>
     map_of (header w1) ''Pragma'' = Some ''no-cache'' \<and>
     map_of (header w1) ''Expires'' = Some ''Fri, 07 Jan 1981 00:00:00 GMT'' \<and>
     code w1 = code w \<and> body w1 = body w \<and>
     (\<forall>cs. noncer_nonce (foldl ResponseNoncer_call (NewResponseNoncer w1 nonce) cs) = nonce) \<and>
     (\<forall>n segs. noncer_nonce n = nonce \<and> (\<forall>seg \<in> set segs. \<not> sublist nonceToken seg) \<longrightarrow>
        noncer_w (ResponseNoncer_Write n (Join segs nonceToken)) = Write (noncer_w n) (Join segs nonce))"
proof -
  let ?csp = "''default-src 'none'; script-src 'strict-dynamic' 'nonce-'' @ nonce @
             ''' 'unsafe-eval'; style-src 'self' 'unsafe-inline'; img-src 'self'; connect-src 'self';''"
  let ?w1 = "Header_Set (Header_Set (Header_Set (Header_Set w ''Content-Security-Policy'' ?csp)
               ''Cache-Control'' ''no-cache, no-store, max-age=0, must-revalidate'')
               ''Pragma'' ''no-cache'') ''Expires'' ''Fri, 07 Jan 1981 00:00:00 GMT''"
  have run: "applyHeaders h encodedRandomString w r =
               noncer_w (ServeHTTP h (NewResponseNoncer ?w1 nonce) r)"
    by (simp add: applyHeaders_def rnd Let_def)
  have csp: "map_of (header ?w1) ''Content-Security-Policy'' = Some ?csp"
    by (simp add: map_of_Header_Set)
  have cc: "map_of (header ?w1) ''Cache-Control'' = Some ''no-cache, no-store, max-age=0, must-revalidate''"
    by (simp add: map_of_Header_Set)
  have pr: "map_of (header ?w1) ''Pragma'' = Some ''no-cache''"
    by (simp add: map_of_Header_Set)
  have ex: "map_of (header ?w1) ''Expires'' = Some ''Fri, 07 Jan 1981 00:00:00 GMT''"
    by (simp add: map_of_Header_Set)
  have cb: "code ?w1 = code w" "body ?w1 = body w"
    by (simp_all add: Header_Set_code_body)
  have same: "\<forall>cs. noncer_nonce (foldl ResponseNoncer_call (NewResponseNoncer ?w1 nonce) cs) = nonce"
    by (simp add: ResponseNoncer_calls_nonce NewResponseNoncer_def)
  have sub: "\<forall>n segs. noncer_nonce n = nonce \<and> (\<forall>seg \<in> set segs. \<not> sublist nonceToken seg) \<longrightarrow>
        noncer_w (ResponseNoncer_Write n (Join segs nonceToken)) = Write (noncer_w n) (Join segs nonce)"
    by (simp add: ResponseNoncer_Write_def Replace_Join)
  from run csp cc pr ex cb same sub show ?thesis
    by blast
qed

theorem applyHeaders_nonce_witness:
  "(\<lambda>size urlSafe. (''bm9uY2U'', None :: error option)) nonceSize False = (''bm9uY2U'', None) \<and>
   \<not> sublist nonceToken ''<script nonce='' \<and> \<not> sublist nonceToken ''></script>'' \<and>
   body (applyHeaders (\<lambda>r. [WriteBody (Join [''<script nonce='', ''></script>''] nonceToken)])
           (\<lambda>size urlSafe. (''bm9uY2U'', None)) emptyResponse (GET ''/index.html'')) =
     ''<script nonce=bm9uY2U></script>'' \<and>
   map_of (header (applyHeaders (\<lambda>r. [WriteBody (Join [''<script nonce='', ''></script>''] nonceToken)])
           (\<lambda>size urlSafe. (''bm9uY2U'', None)) emptyResponse (GET ''/index.html'')))
       ''Content-Security-Policy'' =
     Some ''default-src 'none'; script-src 'strict-dynamic' 'nonce-bm9uY2U' 'unsafe-eval'; style-src 'self' 'unsafe-inline'; img-src 'self'; connect-src 'self';''"
proof -
  let ?rnd = "\<lambda>(size :: nat) (urlSafe :: bool). (''bm9uY2U'', None :: error option)"
  let ?segs = "[''<script nonce='', ''></script>'']"
  let ?h = "\<lambda>r :: request. [WriteBody (Join ?segs nonceToken)]"
  have rnd: "?rnd nonceSize False = (''bm9uY2U'', None)"
    by simp
  have free: "\<not> sublist nonceToken ''<script nonce=''" "\<not> sublist nonceToken ''></script>''"
    by (simp_all add: nonceToken_def sublist_code prefix_code)
  from applyHeaders_nonce [of ?rnd "''bm9uY2U''" None ?h emptyResponse "GET ''/index.html''", OF rnd]
  obtain w1 where
    run: "applyHeaders ?h ?rnd emptyResponse (GET ''/index.html'') =
            noncer_w (ServeHTTP ?h (NewResponseNoncer w1 ''bm9uY2U'') (GET ''/index.html''))"
    and csp: "map_of (header w1) ''Content-Security-Policy'' =
       Some (''default-src 'none'; script-src 'strict-dynamic' 'nonce-'' @ ''bm9uY2U'' @
             ''' 'unsafe-eval'; style-src 'self' 'unsafe-inline'; img-src 'self'; connect-src 'self';'')"
    and bd: "body w1 = body emptyResponse"
    and sub: "\<forall>n segs. noncer_nonce n = ''bm9uY2U'' \<and> (\<forall>seg \<in> set segs. \<not> sublist nonceToken seg) \<longrightarrow>
        noncer_w (ResponseNoncer_Write n (Join segs nonceToken)) = Write (noncer_w n) (Join segs ''bm9uY2U'')"
    by blast
  let ?N = "NewResponseNoncer w1 ''bm9uY2U''"
  have "noncer_nonce ?N = ''bm9uY2U''"
    by (simp add: NewResponseNoncer_def)
  moreover from free have "\<forall>seg \<in> set ?segs. \<not> sublist nonceToken seg"
    by simp
  ultimately
  have "noncer_w (ResponseNoncer_Write ?N (Join ?segs nonceToken)) =
          Write (noncer_w ?N) (Join ?segs ''bm9uY2U'')"
    using sub by blast
  with run have res: "applyHeaders ?h ?rnd emptyResponse (GET ''/index.html'') =
                   Write w1 (Join ?segs ''bm9uY2U'')"
    by (simp add: ServeHTTP_def NewResponseNoncer_def)
  have b: "body (Write w1 (Join ?segs ''bm9uY2U'')) = ''<script nonce=bm9uY2U></script>''"
    using bd by (simp add: Write_def WriteHeader_def emptyResponse_def split: option.splits)
  have hd: "header (Write w1 (Join ?segs ''bm9uY2U'')) = header w1"
    by (simp add: Write_def WriteHeader_def split: option.splits)
  from rnd free res b hd csp show ?thesis
    by simp
qed

text \<open>
  Claim C10. When \<^verbatim>\<open>encodedRandomString\<close> returns an error \<open>e\<close> together with a
  string \<open>nonce\<close>, the response is the one produced when it returns \<open>nonce\<close> and no
  error: the Content-Security-Policy header is set with that string and written bytes have
  the placeholder replaced by it.
\<close>

theorem applyHeaders_drops_nonce_error:
  "applyHeaders h (\<lambda>size urlSafe. (nonce, Some e)) w r =
     applyHeaders h (\<lambda>size urlSafe. (nonce, None)) w r \<and>
   map_of (header (applyHeaders (\<lambda>r. []) (\<lambda>size urlSafe. (nonce, Some e)) w r))
       ''Content-Security-Policy'' =
     Some (''default-src 'none'; script-src 'strict-dynamic' 'nonce-'' @ nonce @
           ''' 'unsafe-eval'; style-src 'self' 'unsafe-inline'; img-src 'self'; connect-src 'self';'') \<and>
   body (applyHeaders (\<lambda>r. [WriteBody b]) (\<lambda>size urlSafe. (nonce, Some e)) w r) =
     body w @ Replace b nonceToken nonce"
  by (simp add: applyHeaders_def Let_def ServeHTTP_def NewResponseNoncer_def
        ResponseNoncer_Write_def Write_def WriteHeader_def map_of_Header_Set Header_Set_code_body
        split: option.splits)

section \<open>Properties of the dispatcher\<close>

lemma URIPattern_here_shape:
  "URIPattern_here s = [] \<or> (\<exists>m name action. URIPattern_here s = [m, name, action])"
  by (simp add: URIPattern_here_def Let_def)

lemma FindStringSubmatch_shape:
  "FindStringSubmatch s = [] \<or> (\<exists>m name action. FindStringSubmatch s = [m, name, action])"
proof (induction s)
  case Nil
  show ?case using URIPattern_here_shape [of "[]"] by simp
next
  case (Cons x xs)
  show ?case
  proof (cases "URIPattern_here (x # xs) = []")
    case True
    with Cons.IH show ?thesis by simp
  next
    case False
    with URIPattern_here_shape [of "x # xs"] show ?thesis by simp
  qed
qed

lemma handleRequest_dynamic:
  assumes "fixedRoute (RequestURI r) = None"
      and "FindStringSubmatch (RequestURI r) = [m, name, action]"
      and "index (availableCiphers conf) name = Some val"
  shows "handleRequest E I conf w r =
           (let (w1, res) = HandleRequest I (New I val) w r
            in if res \<noteq> None then sendResponse E w1 res else w1)"
  using assms by (simp add: handleRequest_def GetAvailableCipher_def)

lemma handleRequest_notFound:
  assumes "fixedRoute (RequestURI r) = None"
      and "FindStringSubmatch (RequestURI r) = [] \<or>
           (\<exists>m name action. FindStringSubmatch (RequestURI r) = [m, name, action]
              \<and> index (availableCiphers conf) name = None)"
  shows "handleRequest E I conf w r =
           Write w (jsonObject_String E
             (Some [(''status'', JString ''INVALID''), (''response'', JStrings [''invalid method''])]))"
  using assms
  by (auto simp: handleRequest_def GetAvailableCipher_def notFound_def sendResponse_def)

lemma GetAvailableCipher_enabled_irrelevant:
  "GetAvailableCipher I (conf\<lparr>enabledCiphers := en\<rparr>) n = GetAvailableCipher I conf n"
  by (simp add: GetAvailableCipher_def)

lemma handleRequest_enabled_irrelevant:
  "handleRequest E I (conf\<lparr>enabledCiphers := en\<rparr>) w r = handleRequest E I conf w r"
  unfolding handleRequest_def GetAvailableCipher_enabled_irrelevant by (rule refl)

lemma apiHandler_valid:
  assumes "RequestURI r \<noteq> ''/api/auth/login''" "RequestURI r \<noteq> ''/api/auth/refresh''"
      and "Validate E r = (True, True, err)"
  shows "apiHandler E I conf w r =
           Inr (handleRequest E I conf (Header_Set w ''Content-Type'' ''application/json'') r)"
  using assms by (simp add: apiHandler_def Let_def)

lemmas http_defs = apiHandler_def handleRequest_def sendResponse_def Write_def WriteHeader_def
  Header_Set_def http_Error_def Values_index_def GetAvailableCipher_def notFound_def
  INVALID_SESSION_def fixedRoute_def URIPattern_here_def alnum_def lower_word_def
  exampleEnv_def sessionOnly_def fullyValid_def restrictedConfig_def EnableCiphers_def
  emptyResponse_def GET_def quoted_def Let_def

subsection \<open>Dynamic routes\<close>

text \<open>
  Claim C3. For a request with a valid session and a valid XSRF token whose URI is
  neither login nor refresh and is no label of the fixed command table: when the pattern
  matches and the available map holds a provider under the name matched, the request is
  handed to the custom request handler of a fresh instance of that provider, and a
  non-nil result is sent; the enabled map plays no part, the response is the same
  whatever it holds; and when the pattern does not match, or the available map holds
  nothing under the name matched, the response is the not-found envelope.
\<close>

theorem dynamic_route_resolves_available:
  assumes uri: "RequestURI r \<noteq> ''/api/auth/login''" "RequestURI r \<noteq> ''/api/auth/refresh''"
      and valid: "Validate E r = (True, True, err)"
      and nofixed: "fixedRoute (RequestURI r) = None"
  shows "(\<forall>m name action val.
            FindStringSubmatch (RequestURI r) = [m, name, action] \<and>
            index (availableCiphers conf) name = Some val \<longrightarrow>
            apiHandler E I conf w r =
              Inr (let (w1, res) = HandleRequest I (New I val)
                                     (Header_Set w ''Content-Type'' ''application/json'') r
                   in if res \<noteq> None then sendResponse E w1 res else w1)) \<and>
         (\<forall>en. apiHandler E I (conf\<lparr>enabledCiphers := en\<rparr>) w r = apiHandler E I conf w r) \<and>
         (FindStringSubmatch (RequestURI r) = [] \<or>
          (\<exists>m name action. FindStringSubmatch (RequestURI r) = [m, name, action]
              \<and> index (availableCiphers conf) name = None) \<longrightarrow>
            apiHandler E I conf w r =
              Inr (Write (Header_Set w ''Content-Type'' ''application/json'')
                     (jsonObject_String E
                        (Some [(''status'', JString ''INVALID''),
                               (''response'', JStrings [''invalid method''])]))))"
proof (intro conjI allI impI)
  fix m name action val
  assume "FindStringSubmatch (RequestURI r) = [m, name, action] \<and>
          index (availableCiphers conf) name = Some val"
  then show "apiHandler E I conf w r =
              Inr (let (w1, res) = HandleRequest I (New I val)
                                     (Header_Set w ''Content-Type'' ''application/json'') r
                   in if res \<noteq> None then sendResponse E w1 res else w1)"
    using handleRequest_dynamic [OF nofixed, of m name action conf val E I]
    by (simp add: apiHandler_valid [OF uri valid])
next
  fix en
  show "apiHandler E I (conf\<lparr>enabledCiphers := en\<rparr>) w r = apiHandler E I conf w r"
    by (simp add: apiHandler_valid [OF uri valid] handleRequest_enabled_irrelevant)
next
  assume "FindStringSubmatch (RequestURI r) = [] \<or>
          (\<exists>m name action. FindStringSubmatch (RequestURI r) = [m, name, action]
              \<and> index (availableCiphers conf) name = None)"
  from handleRequest_notFound [OF nofixed this]
  show "apiHandler E I conf w r =
              Inr (Write (Header_Set w ''Content-Type'' ''application/json'')
                     (jsonObject_String E
                        (Some [(''status'', JString ''INVALID''),
                               (''response'', JStrings [''invalid method''])])))"
    by (simp add: apiHandler_valid [OF uri valid])
qed

theorem dynamic_route_resolves_available_witness:
  "RequestURI (GET ''/api/OpenPGP/whatever'') \<noteq> ''/api/auth/login'' \<and>
   RequestURI (GET ''/api/OpenPGP/whatever'') \<noteq> ''/api/auth/refresh'' \<and>
   Validate fullyValid (GET ''/api/OpenPGP/whatever'') = (True, True, None) \<and>
   fixedRoute (RequestURI (GET ''/api/OpenPGP/whatever'')) = None \<and>
   FindStringSubmatch (RequestURI (GET ''/api/OpenPGP/whatever'')) =
     [''/api/OpenPGP/whatever'', ''OpenPGP'', ''whatever''] \<and>
   index (availableCiphers restrictedConfig) ''OpenPGP'' = Some OpenPGP \<and>
   index (enabledCiphers restrictedConfig) ''OpenPGP'' = None \<and>
   apiHandler fullyValid exampleCiphers restrictedConfig emptyResponse (GET ''/api/OpenPGP/whatever'') =
     Inr \<lparr>header = [(''Content-Type'', ''application/json'')], code = Some 200,
          body = exampleString (Some [(''status'', JString ''OK''), (''response'', JString ''OpenPGP'')])\<rparr> \<and>
   RequestURI (GET ''/api/Nonexistent/whatever'') \<noteq> ''/api/auth/login'' \<and>
   RequestURI (GET ''/api/Nonexistent/whatever'') \<noteq> ''/api/auth/refresh'' \<and>
   Validate fullyValid (GET ''/api/Nonexistent/whatever'') = (True, True, None) \<and>
   fixedRoute (RequestURI (GET ''/api/Nonexistent/whatever'')) = None \<and>
   FindStringSubmatch (RequestURI (GET ''/api/Nonexistent/whatever'')) =
     [''/api/Nonexistent/whatever'', ''Nonexistent'', ''whatever''] \<and>
   index (availableCiphers restrictedConfig) ''Nonexistent'' = None \<and>
   apiHandler fullyValid exampleCiphers restrictedConfig emptyResponse (GET ''/api/Nonexistent/whatever'') =
     Inr \<lparr>header = [(''Content-Type'', ''application/json'')], code = Some 200,
          body = exampleString (Some [(''status'', JString ''INVALID''),
                                      (''response'', JStrings [''invalid method''])])\<rparr>"
proof -
  let ?r = "GET ''/api/OpenPGP/whatever''"
  let ?q = "GET ''/api/Nonexistent/whatever''"
  have r1: "RequestURI ?r \<noteq> ''/api/auth/login''" and r2: "RequestURI ?r \<noteq> ''/api/auth/refresh''"
    and r3: "Validate fullyValid ?r = (True, True, None)"
    and r4: "fixedRoute (RequestURI ?r) = None"
    and r5: "FindStringSubmatch (RequestURI ?r) = [''/api/OpenPGP/whatever'', ''OpenPGP'', ''whatever'']"
    by (simp_all add: http_defs)
  have r6: "index (availableCiphers restrictedConfig) ''OpenPGP'' = Some OpenPGP"
    and r7: "index (enabledCiphers restrictedConfig) ''OpenPGP'' = None"
    by (simp_all add: http_defs example_defs)
  have q1: "RequestURI ?q \<noteq> ''/api/auth/login''" and q2: "RequestURI ?q \<noteq> ''/api/auth/refresh''"
    and q3: "Validate fullyValid ?q = (True, True, None)"
    and q4: "fixedRoute (RequestURI ?q) = None"
    and q5: "FindStringSubmatch (RequestURI ?q) = [''/api/Nonexistent/whatever'', ''Nonexistent'', ''whatever'']"
    by (simp_all add: http_defs)
  have q6: "index (availableCiphers restrictedConfig) ''Nonexistent'' = None"
    by (simp add: http_defs example_defs)
  from dynamic_route_resolves_available
         [OF r1 r2 r3 r4, of restrictedConfig exampleCiphers emptyResponse] r5 r6
  have "apiHandler fullyValid exampleCiphers restrictedConfig emptyResponse ?r =
          Inr (let (w1, res) = HandleRequest exampleCiphers (New exampleCiphers OpenPGP)
                                 (Header_Set emptyResponse ''Content-Type'' ''application/json'') ?r
               in if res \<noteq> None then sendResponse fullyValid w1 res else w1)"
    by blast
  then have fwd: "apiHandler fullyValid exampleCiphers restrictedConfig emptyResponse ?r =
     Inr \<lparr>header = [(''Content-Type'', ''application/json'')], code = Some 200,
          body = exampleString (Some [(''status'', JString ''OK''), (''response'', JString ''OpenPGP'')])\<rparr>"
    by (simp add: exampleCiphers_def OpenPGP_def sendResponse_def fullyValid_def exampleEnv_def
          Write_def WriteHeader_def Header_Set_def emptyResponse_def Let_def)
  from dynamic_route_resolves_available
         [OF q1 q2 q3 q4, of restrictedConfig exampleCiphers emptyResponse] q5 q6
  have "apiHandler fullyValid exampleCiphers restrictedConfig emptyResponse ?q =
          Inr (Write (Header_Set emptyResponse ''Content-Type'' ''application/json'')
                 (jsonObject_String fullyValid
                    (Some [(''status'', JString ''INVALID''),
                           (''response'', JStrings [''invalid method''])])))"
    by blast
  then have nf: "apiHandler fullyValid exampleCiphers restrictedConfig emptyResponse ?q =
     Inr \<lparr>header = [(''Content-Type'', ''application/json'')], code = Some 200,
          body = exampleString (Some [(''status'', JString ''INVALID''),
                                      (''response'', JStrings [''invalid method''])])\<rparr>"
    by (simp add: fullyValid_def exampleEnv_def Write_def WriteHeader_def Header_Set_def
          emptyResponse_def Let_def)
  from r1 r2 r3 r4 r5 r6 r7 fwd q1 q2 q3 q4 q5 q6 nf show ?thesis
    by (simp only:) simp
qed

subsection \<open>The gate\<close>

text \<open>
  Claim C8. A request to \<^verbatim>\<open>/api/auth/refresh\<close> is answered from the session flag
  alone, whatever the XSRF flag and the error of \<^verbatim>\<open>session.Validate\<close> are: with a
  valid session what \<^verbatim>\<open>refresh\<close> returns is sent, otherwise the
  \<^verbatim>\<open>INVALID_SESSION\<close> envelope with a nil response.
\<close>

theorem refresh_needs_session_only:
  assumes uri: "RequestURI r = ''/api/auth/refresh''"
      and session: "Validate E r = (validSessionID, validXSRFToken, err)"
  shows "(validSessionID \<longrightarrow>
            apiHandler E I conf w r =
              Inr (sendResponse E
                     (fst (refresh E (Header_Set w ''Content-Type'' ''application/json'')))
                     (snd (refresh E (Header_Set w ''Content-Type'' ''application/json''))))) \<and>
         (\<not> validSessionID \<longrightarrow>
            apiHandler E I conf w r =
              Inr (Write (Header_Set w ''Content-Type'' ''application/json'')
                     (jsonObject_String E
                        (Some [(''status'', JString ''INVALID_SESSION''), (''response'', JNull)]))))"
  using uri session
  by (simp add: apiHandler_def Let_def sendResponse_def INVALID_SESSION_def split_beta)

theorem refresh_needs_session_only_witness:
  "RequestURI (GET ''/api/auth/refresh'') = ''/api/auth/refresh'' \<and>
   Validate sessionOnly (GET ''/api/auth/refresh'') = (True, False, Some ''missing XSRFToken'') \<and>
   apiHandler sessionOnly exampleCiphers restrictedConfig emptyResponse (GET ''/api/auth/refresh'') =
     Inr \<lparr>header = [(''Content-Type'', ''application/json'')], code = Some 200,
          body = exampleString (Some [(''status'', JString ''OK''), (''response'', JString ''token'')])\<rparr> \<and>
   Validate exampleEnv (GET ''/api/auth/refresh'') = (False, False, Some ''invalid session'') \<and>
   apiHandler exampleEnv exampleCiphers restrictedConfig emptyResponse (GET ''/api/auth/refresh'') =
     Inr \<lparr>header = [(''Content-Type'', ''application/json'')], code = Some 200,
          body = exampleString (Some [(''status'', JString ''INVALID_SESSION''), (''response'', JNull)])\<rparr>"
proof -
  let ?r = "GET ''/api/auth/refresh''"
  have uri: "RequestURI ?r = ''/api/auth/refresh''"
    by (simp add: GET_def)
  have s1: "Validate sessionOnly ?r = (True, False, Some ''missing XSRFToken'')"
    by (simp add: sessionOnly_def exampleEnv_def)
  have s2: "Validate exampleEnv ?r = (False, False, Some ''invalid session'')"
    by (simp add: exampleEnv_def)
  from refresh_needs_session_only [OF uri s1, of exampleCiphers restrictedConfig emptyResponse]
  have a: "apiHandler sessionOnly exampleCiphers restrictedConfig emptyResponse ?r =
     Inr \<lparr>header = [(''Content-Type'', ''application/json'')], code = Some 200,
          body = exampleString (Some [(''status'', JString ''OK''), (''response'', JString ''token'')])\<rparr>"
    by (simp add: sessionOnly_def exampleEnv_def sendResponse_def Write_def WriteHeader_def
          Header_Set_def emptyResponse_def Let_def)
  from refresh_needs_session_only [OF uri s2, of exampleCiphers restrictedConfig emptyResponse]
  have b: "apiHandler exampleEnv exampleCiphers restrictedConfig emptyResponse ?r =
     Inr \<lparr>header = [(''Content-Type'', ''application/json'')], code = Some 200,
          body = exampleString (Some [(''status'', JString ''INVALID_SESSION''), (''response'', JNull)])\<rparr>"
    by (simp add: exampleEnv_def Write_def WriteHeader_def Header_Set_def emptyResponse_def Let_def)
  from uri s1 s2 a b show ?thesis
    by (simp only:)
qed

text \<open>
  The rejections that have the shape their path names. For a request whose URI is neither
  login nor refresh and that is not fully valid, with \<open>u\<close> the URL parsed from its URI: on the path \<^verbatim>\<open>/api/file/upload\<close>
  the reply is \<^verbatim>\<open>http.Error\<close> with the error of \<^verbatim>\<open>session.Validate\<close> and the
  status 401; on the path \<^verbatim>\<open>/api/file/download\<close> with a valid session the file
  named by the first \<^verbatim>\<open>id\<close> value of the query is served by
  \<^verbatim>\<open>fileDownloadByID\<close>; on every other path, and on the download path without a
  valid session, the reply is the \<^verbatim>\<open>INVALID_SESSION\<close> envelope with the status 200.
  (The status is the one named unless the caller had already written one.)
\<close>

theorem rejection_shape_by_path:
  assumes uri: "RequestURI r \<noteq> ''/api/auth/login''" "RequestURI r \<noteq> ''/api/auth/refresh''"
      and session: "Validate E r = (validSessionID, validXSRFToken, err)"
      and invalid: "\<not> (validSessionID \<and> validXSRFToken)"
      and parsed: "url_Parse E (RequestURI r) = Some u"
  shows "(\<forall>e. Path u = ''/api/file/upload'' \<and> err = Some e \<longrightarrow>
            apiHandler E I conf w r =
              Inr (http_Error (Header_Set w ''Content-Type'' ''application/json'') e 401) \<and>
            code (http_Error (Header_Set w ''Content-Type'' ''application/json'') e 401) =
              Some (case code w of None \<Rightarrow> 401 | Some j \<Rightarrow> j)) \<and>
         (\<forall>i rest. Path u = ''/api/file/download'' \<and> validSessionID \<and>
            Values_index (url_ParseQuery E (RawQuery u)) ''id'' = i # rest \<longrightarrow>
            apiHandler E I conf w r =
              Inr (fileDownloadByID E (Header_Set w ''Content-Type'' ''application/json'') i)) \<and>
         (Path u \<noteq> ''/api/file/upload'' \<and> (Path u \<noteq> ''/api/file/download'' \<or> \<not> validSessionID) \<longrightarrow>
            apiHandler E I conf w r =
              Inr (Write (Header_Set w ''Content-Type'' ''application/json'')
                     (jsonObject_String E
                        (Some [(''status'', JString ''INVALID_SESSION''), (''response'', JNull)]))) \<and>
            code (Write (Header_Set w ''Content-Type'' ''application/json'')
                     (jsonObject_String E
                        (Some [(''status'', JString ''INVALID_SESSION''), (''response'', JNull)]))) =
              Some (case code w of None \<Rightarrow> 200 | Some j \<Rightarrow> j))"
proof -
  let ?w = "Header_Set w ''Content-Type'' ''application/json''"
  have gate: "apiHandler E I conf w r =
     (if Path u = ''/api/file/upload'' then
        (case err of
           None \<Rightarrow> Inl (Panic ''invalid memory address or nil pointer dereference'')
         | Some e \<Rightarrow> Inr (http_Error ?w e 401))
      else if Path u = ''/api/file/download'' \<and> validSessionID then
        (case Values_index (url_ParseQuery E (RawQuery u)) ''id'' of
           [] \<Rightarrow> Inl (Panic ''index out of range'')
         | i # rest \<Rightarrow> Inr (fileDownloadByID E ?w i))
      else Inr (sendResponse E ?w INVALID_SESSION))"
    using uri session invalid parsed by (simp add: apiHandler_def Let_def)
  have c401: "code (http_Error ?w e 401) = Some (case code w of None \<Rightarrow> 401 | Some j \<Rightarrow> j)" for e
    by (simp add: http_Error_def Write_def WriteHeader_def Header_Set_def Let_def split: option.splits)
  have c200: "code (Write ?w b) = Some (case code w of None \<Rightarrow> 200 | Some j \<Rightarrow> j)" for b
    by (simp add: Write_def WriteHeader_def Header_Set_def Let_def split: option.splits)
  show ?thesis
    by (simp add: gate c401 c200 sendResponse_def INVALID_SESSION_def)
qed

theorem rejection_shape_by_path_witness:
  "RequestURI (GET ''/api/file/upload'') \<noteq> ''/api/auth/login'' \<and>
   RequestURI (GET ''/api/file/upload'') \<noteq> ''/api/auth/refresh'' \<and>
   Validate exampleEnv (GET ''/api/file/upload'') = (False, False, Some ''invalid session'') \<and>
   \<not> (False \<and> False) \<and>
   url_Parse exampleEnv (RequestURI (GET ''/api/file/upload'')) =
     Some \<lparr>Path = ''/api/file/upload'', RawQuery = []\<rparr> \<and>
   apiHandler exampleEnv exampleCiphers restrictedConfig emptyResponse (GET ''/api/file/upload'') =
     Inr \<lparr>header = [(''Content-Type'', ''text/plain; charset=utf-8''),
                    (''X-Content-Type-Options'', ''nosniff'')],
          code = Some 401, body = ''invalid session'' @ [CHR 0x0A]\<rparr> \<and>
   Validate sessionOnly (GET ''/api/file/download?id=abc'') = (True, False, Some ''missing XSRFToken'') \<and>
   url_Parse sessionOnly (RequestURI (GET ''/api/file/download?id=abc'')) =
     Some \<lparr>Path = ''/api/file/download'', RawQuery = ''id=abc''\<rparr> \<and>
   Values_index (url_ParseQuery sessionOnly ''id=abc'') ''id'' = [''abc''] \<and>
   apiHandler sessionOnly exampleCiphers restrictedConfig emptyResponse (GET ''/api/file/download?id=abc'') =
     Inr \<lparr>header = [(''Content-Type'', ''application/json'')], code = Some 200, body = ''file abc''\<rparr> \<and>
   Validate sessionOnly (GET ''/api/file/list'') = (True, False, Some ''missing XSRFToken'') \<and>
   url_Parse sessionOnly (RequestURI (GET ''/api/file/list'')) =
     Some \<lparr>Path = ''/api/file/list'', RawQuery = []\<rparr> \<and>
   apiHandler sessionOnly exampleCiphers restrictedConfig emptyResponse (GET ''/api/file/list'') =
     Inr \<lparr>header = [(''Content-Type'', ''application/json'')], code = Some 200,
          body = exampleString (Some [(''status'', JString ''INVALID_SESSION''), (''response'', JNull)])\<rparr>"
proof -
  let ?up = "GET ''/api/file/upload''"
  let ?dl = "GET ''/api/file/download?id=abc''"
  let ?ls = "GET ''/api/file/list''"
  let ?w = "Header_Set emptyResponse ''Content-Type'' ''application/json''"
  have u1: "RequestURI ?up \<noteq> ''/api/auth/login''" and u2: "RequestURI ?up \<noteq> ''/api/auth/refresh''"
    and u3: "Validate exampleEnv ?up = (False, False, Some ''invalid session'')"
    and u4: "\<not> (False \<and> False)"
    and u5: "url_Parse exampleEnv (RequestURI ?up) = Some \<lparr>Path = ''/api/file/upload'', RawQuery = []\<rparr>"
    by (simp_all add: exampleEnv_def GET_def)
  have d1: "RequestURI ?dl \<noteq> ''/api/auth/login''" and d2: "RequestURI ?dl \<noteq> ''/api/auth/refresh''"
    and d3: "Validate sessionOnly ?dl = (True, False, Some ''missing XSRFToken'')"
    and d4: "\<not> (True \<and> False)"
    and d5: "url_Parse sessionOnly (RequestURI ?dl) = Some \<lparr>Path = ''/api/file/download'', RawQuery = ''id=abc''\<rparr>"
    and d6: "Values_index (url_ParseQuery sessionOnly ''id=abc'') ''id'' = [''abc'']"
    by (simp_all add: sessionOnly_def exampleEnv_def GET_def Values_index_def)
  have l1: "RequestURI ?ls \<noteq> ''/api/auth/login''" and l2: "RequestURI ?ls \<noteq> ''/api/auth/refresh''"
    and l3: "Validate sessionOnly ?ls = (True, False, Some ''missing XSRFToken'')"
    and l5: "url_Parse sessionOnly (RequestURI ?ls) = Some \<lparr>Path = ''/api/file/list'', RawQuery = []\<rparr>"
    by (simp_all add: sessionOnly_def exampleEnv_def GET_def)
  from rejection_shape_by_path [OF u1 u2 u3 u4 u5, of exampleCiphers restrictedConfig emptyResponse]
  have "apiHandler exampleEnv exampleCiphers restrictedConfig emptyResponse ?up =
          Inr (http_Error ?w ''invalid session'' 401)"
    by simp
  then have up: "apiHandler exampleEnv exampleCiphers restrictedConfig emptyResponse ?up =
     Inr \<lparr>header = [(''Content-Type'', ''text/plain; charset=utf-8''),
                    (''X-Content-Type-Options'', ''nosniff'')],
          code = Some 401, body = ''invalid session'' @ [CHR 0x0A]\<rparr>"
    by (simp add: http_Error_def Write_def WriteHeader_def Header_Set_def emptyResponse_def Let_def)
  from rejection_shape_by_path [OF d1 d2 d3 d4 d5, of exampleCiphers restrictedConfig emptyResponse] d6
  have "apiHandler sessionOnly exampleCiphers restrictedConfig emptyResponse ?dl =
          Inr (fileDownloadByID sessionOnly ?w ''abc'')"
    by simp
  then have dl: "apiHandler sessionOnly exampleCiphers restrictedConfig emptyResponse ?dl =
     Inr \<lparr>header = [(''Content-Type'', ''application/json'')], code = Some 200, body = ''file abc''\<rparr>"
    by (simp add: sessionOnly_def exampleEnv_def Write_def WriteHeader_def Header_Set_def
          emptyResponse_def Let_def)
  from rejection_shape_by_path [OF l1 l2 l3 d4 l5, of exampleCiphers restrictedConfig emptyResponse]
  have "apiHandler sessionOnly exampleCiphers restrictedConfig emptyResponse ?ls =
          Inr (Write ?w (jsonObject_String sessionOnly
                 (Some [(''status'', JString ''INVALID_SESSION''), (''response'', JNull)])))"
    by simp
  then have ls: "apiHandler sessionOnly exampleCiphers restrictedConfig emptyResponse ?ls =
     Inr \<lparr>header = [(''Content-Type'', ''application/json'')], code = Some 200,
          body = exampleString (Some [(''status'', JString ''INVALID_SESSION''), (''response'', JNull)])\<rparr>"
    by (simp add: sessionOnly_def exampleEnv_def Write_def WriteHeader_def Header_Set_def
          emptyResponse_def Let_def)
  from u1 u2 u3 u5 up d3 d5 d6 dl l3 l5 ls show ?thesis
    by (simp only:) simp
qed

text \<open>
  Claim C5. For every request that is not fully valid and is neither login nor refresh,
  the path should fix the shape of the rejection, and a download request with a valid
  session and an invalid XSRF token should be served by its identifier. By
  \<open>rejection_shape_by_path\<close> this is what happens when the download request carries
  an \<^verbatim>\<open>id\<close>. When its query has other parameters but no \<^verbatim>\<open>id\<close>, the handler
  indexes the empty list of \<^verbatim>\<open>id\<close> values and panics: the request is neither served
  nor rejected with the \<^verbatim>\<open>INVALID_SESSION\<close> envelope.
\<close>

theorem download_rejection_without_id_has_no_shape:
  "Validate sessionOnly (GET ''/api/file/download?name=report'') =
     (True, False, Some ''missing XSRFToken'') \<and>
   url_Parse sessionOnly (RequestURI (GET ''/api/file/download?name=report'')) =
     Some \<lparr>Path = ''/api/file/download'', RawQuery = ''name=report''\<rparr> \<and>
   Values_index (url_ParseQuery sessionOnly ''name=report'') ''id'' = [] \<and>
   apiHandler sessionOnly exampleCiphers restrictedConfig emptyResponse
     (GET ''/api/file/download?name=report'')
   = Inl (Panic ''index out of range'')"
  by (simp add: apiHandler_def sessionOnly_def exampleEnv_def GET_def Values_index_def Let_def)

text \<open>
  Claim C4. A request-time error should come back as a structured envelope. A request to
  \<^verbatim>\<open>/api/file/download\<close> with a valid session, an invalid XSRF token and no
  \<^verbatim>\<open>id\<close> in its query makes the handler index the empty list of \<^verbatim>\<open>id\<close> values:
  it panics and no envelope is written.
\<close>

theorem download_without_id_panics:
  "apiHandler sessionOnly exampleCiphers exampleConfig emptyResponse (GET ''/api/file/download'')
   = Inl (Panic ''index out of range'')"
  by (simp add: apiHandler_def sessionOnly_def exampleEnv_def GET_def Values_index_def Let_def)

end
